theory Spec2Isabelle
  imports Main "HOL-Library.AList"
begin

section \<open>JavaScript values\<close>

text \<open>
  The filters work on \<open>Value\<close>, the untyped JavaScript value of the adapter API.
  A plain object is the list of its own properties in the order \<open>Object.keys\<close> lists
  them. A string is a list of 8-bit characters, so the model covers strings of code units
  below 256. A number is carried as the text \<open>String\<close> gives for it: the filters never
  compute with numbers, they only test for them and print them. A
  \<open>ReferenceExpression\<close> is an opaque class instance that holds an element id; its own
  properties belong to the adapter API and are not part of the model, so spreading one
  into an object literal adds nothing here. An element id is the list of the segments of
  its full name (see the section on element ids below).
\<close>

datatype elemID = ElemID (parts: "string list")

datatype val =
    VUndef
  | VNull
  | VBool bool
  | VNum string
  | VStr string
  | VArr "val list"
  | VObj "(string \<times> val) list"
  | VRef elemID

type_synonym Values = "(string \<times> val) list"

datatype error = TypeError

subsection \<open>Decimal digits and array indices\<close>

definition is_digit :: "char \<Rightarrow> bool" where
  "is_digit c = (let n = (of_char c :: nat) in 48 \<le> n \<and> n \<le> 57)"

definition digit_char :: "nat \<Rightarrow> char" where
  "digit_char d = char_of (48 + d mod 10)"

text \<open>\<open>String(n)\<close> for a natural number \<open>n\<close>, most significant digit first.\<close>

function dec :: "nat \<Rightarrow> string" where
  "dec n = (if n < 10 then [digit_char n] else dec (n div 10) @ [digit_char n])"
  by pat_completeness auto
termination
  by (relation "measure id") auto

declare dec.simps [simp del]

definition digits_value :: "string \<Rightarrow> nat" where
  "digits_value s = foldl (\<lambda>a c. 10 * a + (of_char c - 48)) 0 s"

text \<open>
  An array index is the canonical decimal text of an integer below \<open>2^32 - 1\<close>.
  JavaScript lists the own properties of an object with the array indices first, in
  ascending order, and the other names after them in the order they were created.
\<close>

definition is_array_index :: "string \<Rightarrow> bool" where
  "is_array_index s =
     (s \<noteq> [] \<and> list_all is_digit s \<and> (s = ''0'' \<or> hd s \<noteq> CHR ''0'')
      \<and> digits_value s < 4294967295)"

subsection \<open>Own properties of a plain object\<close>

definition has_key :: "string \<Rightarrow> Values \<Rightarrow> bool" where
  \<comment> \<open>\<open>k in obj\<close> for an own property\<close>
  "has_key k kvs = (map_of kvs k \<noteq> None)"

definition obj_get :: "Values \<Rightarrow> string \<Rightarrow> val" where
  \<comment> \<open>\<open>obj[k]\<close>: a missing property reads as \<open>undefined\<close>\<close>
  "obj_get kvs k = (case map_of kvs k of None \<Rightarrow> VUndef | Some v \<Rightarrow> v)"

definition obj_keys :: "Values \<Rightarrow> string list" where
  \<comment> \<open>\<open>Object.keys(obj)\<close>\<close>
  "obj_keys kvs = map fst kvs"

text \<open>
  Adding a new property: an array index goes before the first property that is not an
  array index or is a larger one, any other name goes last.
\<close>

fun obj_insert :: "string \<Rightarrow> val \<Rightarrow> Values \<Rightarrow> Values" where
  "obj_insert k v [] = [(k, v)]"
| "obj_insert k v ((k', v') # kvs) =
     (if is_array_index k \<and> (\<not> is_array_index k' \<or> digits_value k < digits_value k')
      then (k, v) # (k', v') # kvs
      else (k', v') # obj_insert k v kvs)"

definition obj_set :: "string \<Rightarrow> val \<Rightarrow> Values \<Rightarrow> Values" where
  \<comment> \<open>\<open>obj[k] = v\<close>: an existing property keeps its place\<close>
  "obj_set k v kvs = (if has_key k kvs then AList.update k v kvs else obj_insert k v kvs)"

definition omit :: "Values \<Rightarrow> string \<Rightarrow> Values" where
  \<comment> \<open>\<open>_.omit(obj, k)\<close> and \<open>delete obj[k]\<close>\<close>
  "omit kvs k = AList.delete k kvs"

definition assign :: "Values \<Rightarrow> Values \<Rightarrow> Values" where
  \<comment> \<open>the object \<open>target\<close> after each property of \<open>src\<close> has been set on it in turn\<close>
  "assign target src = foldl (\<lambda>acc (k, v). obj_set k v acc) target src"

fun indexed :: "nat \<Rightarrow> val list \<Rightarrow> Values" where
  "indexed i [] = []"
| "indexed i (x # xs) = (dec i, x) # indexed (Suc i) xs"

definition own_entries :: "val \<Rightarrow> Values" where
  \<comment> \<open>the own enumerable properties that \<open>{...v}\<close> copies\<close>
  "own_entries v =
     (case v of
        VObj kvs \<Rightarrow> kvs
      | VArr xs \<Rightarrow> indexed 0 xs
      | VStr s \<Rightarrow> indexed 0 (map (\<lambda>c. VStr [c]) s)
      | _ \<Rightarrow> [])"

definition spread :: "Values \<Rightarrow> val \<Rightarrow> Values" where
  \<comment> \<open>\<open>{...literal, ...v}\<close> where \<open>literal\<close> holds the properties written before the spread\<close>
  "spread literal v = assign literal (own_entries v)"

definition isString :: "val \<Rightarrow> bool" where
  "isString v = (case v of VStr _ \<Rightarrow> True | _ \<Rightarrow> False)"

definition isBoolean :: "val \<Rightarrow> bool" where
  "isBoolean v = (case v of VBool _ \<Rightarrow> True | _ \<Rightarrow> False)"

definition isArray :: "val \<Rightarrow> bool" where
  "isArray v = (case v of VArr _ \<Rightarrow> True | _ \<Rightarrow> False)"

subsection \<open>Strings\<close>

definition join :: "string \<Rightarrow> string list \<Rightarrow> string" where
  \<comment> \<open>\<open>xs.join(sep)\<close>\<close>
  "join sep xs = (case xs of [] \<Rightarrow> [] | y # ys \<Rightarrow> foldl (\<lambda>a s. a @ sep @ s) y ys)"

fun js_String :: "val \<Rightarrow> string" where
  "js_String VUndef = ''undefined''"
| "js_String VNull = ''null''"
| "js_String (VBool b) = (if b then ''true'' else ''false'')"
| "js_String (VNum n) = n"
| "js_String (VStr s) = s"
| "js_String (VArr xs) =
     join '','' (map (\<lambda>x. case x of VUndef \<Rightarrow> [] | VNull \<Rightarrow> [] | _ \<Rightarrow> js_String x) xs)"
| "js_String (VObj kvs) = ''[object Object]''"
| "js_String (VRef r) = ''[object Object]''"

fun split :: "char \<Rightarrow> string \<Rightarrow> string list" where
  "split c [] = [[]]"
| "split c (x # xs) =
     (if x = c then [] # split c xs
      else (case split c xs of [] \<Rightarrow> [[x]] | p # ps \<Rightarrow> (x # p) # ps))"

definition startsWith :: "string \<Rightarrow> string \<Rightarrow> bool" where
  "startsWith s p = (take (length p) s = p)"


subsection \<open>\<open>Number(str)\<close> is \<open>NaN\<close>\<close>

text \<open>
  \<open>Number\<close> applied to a string strips white space and line terminators from both ends
  and reads the rest as a \<open>StrNumericLiteral\<close> of ECMAScript: nothing at all (the number
  0), a signed decimal literal with optional fraction and exponent, \<open>Infinity\<close> with an
  optional sign, or an unsigned binary, octal or hexadecimal integer. Any other text
  gives \<open>NaN\<close>.
\<close>

definition is_white :: "char \<Rightarrow> bool" where
  "is_white c = ((of_char c :: nat) \<in> {9, 10, 11, 12, 13, 32, 160})"

definition trim :: "string \<Rightarrow> string" where
  "trim s = rev (dropWhile is_white (rev (dropWhile is_white s)))"

definition strip_sign :: "string \<Rightarrow> string" where
  "strip_sign s =
     (case s of [] \<Rightarrow> [] | c # r \<Rightarrow> if c = CHR ''+'' \<or> c = CHR ''-'' then r else s)"

definition is_digits :: "string \<Rightarrow> bool" where
  "is_digits s = (s \<noteq> [] \<and> list_all is_digit s)"

definition exponent_opt :: "string \<Rightarrow> bool" where
  "exponent_opt s =
     (case s of [] \<Rightarrow> True
      | c # r \<Rightarrow> (c = CHR ''e'' \<or> c = CHR ''E'') \<and> is_digits (strip_sign r))"

definition unsigned_decimal :: "string \<Rightarrow> bool" where
  "unsigned_decimal s =
     (s = ''Infinity'' \<or>
      (let ip = takeWhile is_digit s; rest = dropWhile is_digit s in
       case rest of
         [] \<Rightarrow> ip \<noteq> []
       | c # r \<Rightarrow>
           if c = CHR ''.''
           then (ip \<noteq> [] \<or> takeWhile is_digit r \<noteq> []) \<and> exponent_opt (dropWhile is_digit r)
           else ip \<noteq> [] \<and> exponent_opt rest))"

definition is_hex_digit :: "char \<Rightarrow> bool" where
  "is_hex_digit c =
     (let n = (of_char c :: nat) in
      (48 \<le> n \<and> n \<le> 57) \<or> (65 \<le> n \<and> n \<le> 70) \<or> (97 \<le> n \<and> n \<le> 102))"

definition is_octal_digit :: "char \<Rightarrow> bool" where
  "is_octal_digit c = (let n = (of_char c :: nat) in 48 \<le> n \<and> n \<le> 55)"

definition is_binary_digit :: "char \<Rightarrow> bool" where
  "is_binary_digit c = (c = CHR ''0'' \<or> c = CHR ''1'')"

definition non_decimal :: "string \<Rightarrow> bool" where
  "non_decimal s =
     (case s of
        z # c # r \<Rightarrow>
          z = CHR ''0'' \<and> r \<noteq> [] \<and>
          (if c = CHR ''x'' \<or> c = CHR ''X'' then list_all is_hex_digit r
           else if c = CHR ''o'' \<or> c = CHR ''O'' then list_all is_octal_digit r
           else if c = CHR ''b'' \<or> c = CHR ''B'' then list_all is_binary_digit r
           else False)
      | _ \<Rightarrow> False)"

definition Number_isNaN :: "string \<Rightarrow> bool" where
  \<comment> \<open>\<open>Number.isNaN(Number(str))\<close>\<close>
  "Number_isNaN str =
     (let t = trim str in t \<noteq> [] \<and> \<not> non_decimal t \<and> \<not> unsigned_decimal (strip_sign t))"

section \<open>Element ids, schema types and elements\<close>

text \<open>
  Modelled from the spec: the class \<open>ElemID\<close> of the adapter API, with its methods
  \<open>getFullName\<close>, \<open>createNestedID\<close> and \<open>isEqual\<close> and its property \<open>typeName\<close>,
  is not among the sources. The spec gives a resolved reference path as a structured path
  of segments that names the sibling document, the fixed intermediate fields, the string
  id and the fixed terminal field; the filters read it through
  \<open>getFullName().split('.')\<close> and test it against a pattern of eight dot-separated
  segments. An element id is therefore the list of the segments it was built from, its
  full name joins them with dots, a nested id appends segments, two ids are equal when
  their full names are, and the type name is the segment after the adapter.
\<close>

definition getFullName :: "elemID \<Rightarrow> string" where
  "getFullName e = join ''.'' (parts e)"

definition createNestedID :: "elemID \<Rightarrow> string list \<Rightarrow> elemID" where
  "createNestedID e names = ElemID (parts e @ names)"

definition isEqual :: "elemID \<Rightarrow> elemID \<Rightarrow> bool" where
  "isEqual a b = (getFullName a = getFullName b)"

definition typeName :: "elemID \<Rightarrow> string" where
  \<comment> \<open>the second segment, after the adapter\<close>
  "typeName e = (case parts e of a # t # rest \<Rightarrow> t | _ \<Rightarrow> [])"

text \<open>
  The constants \<open>NETSUITE\<close> and \<open>WORKBOOK\<close> come from a module that is not among the
  sources. The pattern in \<open>checkReferenceToTranslation\<close> spells the first, and the
  discriminator that \<open>returnToOriginalShape\<close> writes for a workbook spells the second.
\<close>

definition NETSUITE :: string where "NETSUITE = ''netsuite''"
definition WORKBOOK :: string where "WORKBOOK = ''workbook''"

text \<open>
  Modelled from the spec: the type classes of the adapter API (\<open>PrimitiveType\<close>,
  \<open>ListType\<close>, \<open>ObjectType\<close>, \<open>Field\<close>) and their tests \<open>isPrimitiveType\<close> and
  \<open>isContainerType\<close> are not among the sources. In the spec a schema node is a
  primitive, a list of a node, or an object with named fields, and nodes and fields carry
  annotations. A container names its inner type by id only: the filters never look inside
  one, and the two cycles of the dataset schema (\<open>datasetFormula.fields\<close> and
  \<open>datasetCondition.children\<close>) both pass through a list.
\<close>

datatype typeElem =
    PrimitiveType elemID
  | ContainerType elemID
  | ObjectType elemID Values "(string \<times> field) list"
and field = Field typeElem Values

fun refType :: "field \<Rightarrow> typeElem" where
  "refType (Field t a) = t"

fun field_annotations :: "field \<Rightarrow> Values" where
  "field_annotations (Field t a) = a"

fun type_elemID :: "typeElem \<Rightarrow> elemID" where
  "type_elemID (PrimitiveType e) = e"
| "type_elemID (ContainerType e) = e"
| "type_elemID (ObjectType e a fs) = e"

fun type_annotations :: "typeElem \<Rightarrow> Values" where
  "type_annotations (ObjectType e a fs) = a"
| "type_annotations _ = []"

fun type_fields :: "typeElem \<Rightarrow> (string \<times> field) list" where
  "type_fields (ObjectType e a fs) = fs"
| "type_fields _ = []"

fun isContainerType :: "typeElem \<Rightarrow> bool" where
  "isContainerType (ContainerType e) = True"
| "isContainerType _ = False"

fun isPrimitiveType :: "typeElem \<Rightarrow> bool" where
  "isPrimitiveType (PrimitiveType e) = True"
| "isPrimitiveType _ = False"

definition STRING_elemID :: elemID where
  \<comment> \<open>\<open>BuiltinTypes.STRING.elemID\<close>\<close>
  "STRING_elemID = ElemID [''string'']"

text \<open>
  Modelled from the spec: the element classes of the adapter API are not among the
  sources. An element of the fetched workspace is an instance, which has an id and a value
  (a mapping of field names to values), or something else (a type) that has no \<open>value\<close>
  property.
\<close>

datatype instanceElement = InstanceElement elemID Values

datatype element =
    Instance instanceElement
  | OtherElement elemID

fun inst_elemID :: "instanceElement \<Rightarrow> elemID" where
  "inst_elemID (InstanceElement e v) = e"

fun inst_value :: "instanceElement \<Rightarrow> Values" where
  "inst_value (InstanceElement e v) = v"

fun element_elemID :: "element \<Rightarrow> elemID" where
  "element_elemID (Instance i) = inst_elemID i"
| "element_elemID (OtherElement e) = e"

fun element_value :: "element \<Rightarrow> val" where
  "element_value (Instance i) = VObj (inst_value i)"
| "element_value (OtherElement e) = VUndef"

text \<open>
  \<open>v?.[k]\<close>: \<open>undefined\<close> on \<open>undefined\<close> and \<open>null\<close>, the own property otherwise.
  Inherited properties (\<open>length\<close>, \<open>constructor\<close>) are left out: none of them has a
  \<open>scriptid\<close>, which is all the chain below asks of its last link.
\<close>

definition opt_get :: "val \<Rightarrow> string \<Rightarrow> val" where
  "opt_get v k =
     (case v of
        VObj kvs \<Rightarrow> obj_get kvs k
      | VArr xs \<Rightarrow>
          if is_array_index k \<and> digits_value k < length xs then xs ! digits_value k else VUndef
      | VStr s \<Rightarrow>
          if is_array_index k \<and> digits_value k < length s then VStr [s ! digits_value k]
          else VUndef
      | _ \<Rightarrow> VUndef)"


text \<open>
  \<open>container[key]\<close> for a key that is a property name or an array position. Reading a
  property of \<open>undefined\<close> or \<open>null\<close> throws.
\<close>

datatype key = KStr string | KNum nat

definition js_get :: "val \<Rightarrow> key \<Rightarrow> error + val" where
  "js_get container k =
     (case container of
        VUndef \<Rightarrow> Inl TypeError
      | VNull \<Rightarrow> Inl TypeError
      | VArr xs \<Rightarrow>
          (case k of
             KNum i \<Rightarrow> Inr (if i < length xs then xs ! i else VUndef)
           | KStr s \<Rightarrow> Inr (opt_get container s))
      | _ \<Rightarrow> Inr (opt_get container (case k of KStr s \<Rightarrow> s | KNum i \<Rightarrow> dec i)))"

definition nth_opt :: "'a list \<Rightarrow> nat \<Rightarrow> 'a option" where
  \<comment> \<open>\<open>xs[i]\<close>, \<open>None\<close> for \<open>undefined\<close>\<close>
  "nth_opt xs i = (if i < length xs then Some (xs ! i) else None)"

fun forEach :: "'a list \<Rightarrow> ('a \<Rightarrow> 's \<Rightarrow> error + 's) \<Rightarrow> 's \<Rightarrow> error + 's" where
  \<comment> \<open>a loop over \<open>xs\<close> that updates a state and stops at the first throw\<close>
  "forEach [] f s = Inr s"
| "forEach (x # xs) f s = (case f x s of Inl e \<Rightarrow> Inl e | Inr s' \<Rightarrow> forEach xs f s')"

section \<open>The analytics filter\<close>

definition XML_TYPE :: string where "XML_TYPE = ''XML_TYPE''"
definition DO_NOT_ADD :: string where "DO_NOT_ADD = ''DO_NOT_ADD''"
definition DEFAULT_VALUE :: string where "DEFAULT_VALUE = ''DEFAULT_VALUE''"
definition IGNORE_T_VALUE :: string where "IGNORE_T_VALUE = ''IGNORE_T_VALUE''"

definition T :: string where "T = ''_T_''"
definition TYPE_attr :: string where
  \<comment> \<open>the constant \<open>TYPE\<close> of the source\<close>
  "TYPE_attr = ''@_type''"
definition ITEM :: string where "ITEM = ''_ITEM_''"
definition TEXT :: string where "TEXT = ''#text''"

definition TValuesToIgnore :: "string list" where
  "TValuesToIgnore = [''workbook'', ''dataSet'', ''formula'']"

definition keysToAddT :: "string list" where
  "keysToAddT = [''formula'']"

definition set_has :: "string list \<Rightarrow> val \<Rightarrow> bool" where
  \<comment> \<open>\<open>Set.has\<close> on a set of strings\<close>
  "set_has s v = (case v of VStr x \<Rightarrow> x \<in> set s | _ \<Rightarrow> False)"

definition isNumberStr :: "string \<Rightarrow> bool" where
  "isNumberStr str = (\<not> Number_isNaN str)"

subsection \<open>Fetch\<close>

datatype log_entry =
    UnexpectedPath "elemID option"
  | UnexpectedT "elemID option"

definition fieldTypeOf :: "elemID option \<Rightarrow> field option \<Rightarrow> typeElem \<Rightarrow> typeElem option" where
  \<comment> \<open>the first line of both transform functions\<close>
  "fieldTypeOf path field type =
     (if (case path of None \<Rightarrow> False
          | Some p \<Rightarrow> length (split CHR ''.'' (getFullName p)) = 4)
      then Some type
      else map_option refType field)"

definition is_tagged_union :: "typeElem option \<Rightarrow> bool" where
  \<comment> \<open>\<open>isObjectType(fieldType) && XML_TYPE in fieldType.annotations\<close>\<close>
  "is_tagged_union fieldType =
     (case fieldType of
        Some (ObjectType e annotations fs) \<Rightarrow> has_key XML_TYPE annotations
      | _ \<Rightarrow> False)"

text \<open>
  \<open>fetchTransformFunc\<close> returns what it logged together with its result. The element
  source is a finite table from full names to elements, and \<open>get\<close> looks an id up in it.
\<close>

definition elementsSource_get :: "(string \<times> element) list \<Rightarrow> elemID \<Rightarrow> element option" where
  "elementsSource_get elementsSource e = map_of elementsSource (getFullName e)"

definition fetchTransformFunc ::
  "val \<Rightarrow> field option \<Rightarrow> elemID option \<Rightarrow> (string \<times> element) list \<Rightarrow> element list
     \<Rightarrow> typeElem \<Rightarrow> log_entry list \<times> val" where
  "fetchTransformFunc value field path elementsSource elements type =
     (let fieldType = fieldTypeOf path field type;
          logged = (if fieldType = None then [UnexpectedPath path] else [])
      in
      case value of
        VObj obj \<Rightarrow>
          if has_key TYPE_attr obj \<and> obj_get obj TYPE_attr = VStr ''null''
          then (logged, VObj [])
          else if has_key TYPE_attr obj \<and> obj_get obj TYPE_attr = VStr ''array''
          then (logged,
                if obj_get obj ITEM \<noteq> VUndef
                then (if isArray (obj_get obj ITEM) then obj_get obj ITEM
                      else VArr [obj_get obj ITEM])
                else VArr [])
          else if has_key TYPE_attr obj \<and> obj_get obj TYPE_attr = VStr ''boolean''
          then (logged, obj_get obj TEXT)
          else if has_key TYPE_attr obj \<and> obj_get obj TYPE_attr = VStr ''string''
          then (logged, VStr (js_String (obj_get obj TEXT)))
          else if has_key T obj
          then
            (if \<not> is_tagged_union fieldType
             then (logged @ [UnexpectedT path],
                   VObj (spread [(''xmlType'', obj_get obj T)] (VObj (omit obj T))))
             else (logged,
                   if set_has TValuesToIgnore (obj_get obj T) then VObj (omit obj T)
                   else VObj [(js_String (obj_get obj T), VObj (omit obj T))]))
          else (logged, value)
      | _ \<Rightarrow>
          (case
             (case value of
                VStr str \<Rightarrow>
                  if startsWith str ''custcollectiontranslations''
                  then
                    (let nameParts = split CHR ''.'' str in
                     if length nameParts = 2
                     then
                       (let instanceElemId =
                              ElemID [NETSUITE, ''translationcollection'', ''instance'',
                                      nameParts ! 0];
                            fullName = getFullName instanceElemId;
                            instance =
                              (case elementsSource_get elementsSource instanceElemId of
                                 Some e \<Rightarrow> Some e
                               | None \<Rightarrow>
                                   find (\<lambda>e. getFullName (element_elemID e) = fullName)
                                     elements)
                        in
                        case instance of
                          None \<Rightarrow> None
                        | Some i \<Rightarrow>
                            if opt_get
                                 (opt_get
                                    (opt_get (opt_get (element_value i) ''strings'') ''string'')
                                    (nameParts ! 1))
                                 ''scriptid'' \<noteq> VUndef
                            then Some (VRef (createNestedID instanceElemId
                                               [''strings'', ''string'', nameParts ! 1,
                                                ''scriptid'']))
                            else None)
                     else None)
                  else None
              | _ \<Rightarrow> None) of
             Some reference \<Rightarrow> (logged, reference)
           | None \<Rightarrow>
               (logged,
                if (case fieldType of None \<Rightarrow> False
                    | Some t \<Rightarrow> isEqual (type_elemID t) STRING_elemID)
                then VStr (js_String value)
                else value)))"


subsection \<open>Deploy: field completion\<close>

definition arrayObject :: val where
  "arrayObject = VObj [(TYPE_attr, VStr ''array'')]"

definition nullObject :: val where
  "nullObject = VObj [(TYPE_attr, VStr ''null'')]"

fun collect :: "(string \<times> (error + val)) list \<Rightarrow> Values \<Rightarrow> error + Values" where
  \<comment> \<open>\<open>newObject[innerKey] = ...\<close> for each key in turn, up to the first throw\<close>
  "collect [] newObject = Inr newObject"
| "collect ((innerKey, Inl e) # rest) newObject = Inl e"
| "collect ((innerKey, Inr v) # rest) newObject = collect rest (obj_set innerKey v newObject)"

function createEmptyObjectOfType :: "typeElem \<Rightarrow> string \<Rightarrow> error + val" where
  "createEmptyObjectOfType fieldType key =
     (case map_of (type_fields fieldType) key of
        None \<Rightarrow> Inl TypeError
      | Some fld \<Rightarrow>
          if has_key DEFAULT_VALUE (field_annotations fld)
          then Inr (obj_get (field_annotations fld) DEFAULT_VALUE)
          else
            let keyType = refType fld in
            if isContainerType keyType then Inr arrayObject
            else if isPrimitiveType keyType
                    \<or> (has_key XML_TYPE (type_annotations keyType)
                        \<and> \<not> has_key IGNORE_T_VALUE (type_annotations keyType))
            then Inr nullObject
            else
              (case collect
                      (map (\<lambda>innerKey. (innerKey, createEmptyObjectOfType keyType innerKey))
                         (filter (\<lambda>innerKey.
                              case map_of (type_fields keyType) innerKey of
                                None \<Rightarrow> False
                              | Some f \<Rightarrow> \<not> has_key DO_NOT_ADD (field_annotations f))
                            (map fst (type_fields keyType)))) [] of
                 Inl e \<Rightarrow> Inl e
               | Inr newObject \<Rightarrow>
                   if list_all (\<lambda>v. v = nullObject \<or> v = arrayObject) (map snd newObject)
                   then Inr nullObject
                   else Inr (VObj newObject)))"
  by pat_completeness auto
termination
proof (relation "measure (\<lambda>(t, k). size t)")
  show "wf (measure (\<lambda>(t, k). size t))"
    by simp
next
  fix fieldType :: typeElem and key :: string and fld keyType and innerKey :: string
  assume look: "map_of (type_fields fieldType) key = Some fld"
    and kt: "keyType = refType fld"
  have below: "size f < Suc (size_list (size_prod (\<lambda>x. 0) size) fs)"
    if "map_of fs k = Some f" for fs :: "(string \<times> field) list" and k f
    using that by (induction fs) (auto split: if_splits)
  have "size (refType fld) < size fld"
    by (cases fld) simp
  moreover have "size fld < size fieldType"
    using look below [of "type_fields fieldType" key fld] by (cases fieldType) auto
  ultimately show "((keyType, innerKey), (fieldType, key)) \<in> measure (\<lambda>(t, k). size t)"
    using kt by simp
qed

declare createEmptyObjectOfType.simps [simp del]

text \<open>
  \<open>deployTransformFunc\<close> changes \<open>value\<close> in place and returns it; the model returns the
  changed value. The keys of the type's fields go through the filter and the loop body one
  at a time, so each test \<open>key in value\<close> sees the fields added before it.
\<close>

definition deployTransformFunc ::
  "val \<Rightarrow> field option \<Rightarrow> elemID option \<Rightarrow> typeElem \<Rightarrow> error + val" where
  "deployTransformFunc value field path analyticsType =
     (let fieldType = fieldTypeOf path field analyticsType in
      case (fieldType, value) of
        (Some (ObjectType e annotations fields), VObj obj) \<Rightarrow>
          if \<not> has_key TYPE_attr obj
          then
            (if has_key XML_TYPE annotations \<and> length (obj_keys obj) = 1
             then Inr (VObj (obj_set T (VStr (obj_keys obj ! 0)) obj))
             else
               (case forEach (map fst fields)
                       (\<lambda>key obj.
                          if has_key key obj then Inr obj
                          else
                            (case map_of fields key of
                               None \<Rightarrow> Inl TypeError
                             | Some f \<Rightarrow>
                                 if obj_get (field_annotations f) DO_NOT_ADD = VBool True
                                 then Inr obj
                                 else if has_key DEFAULT_VALUE (field_annotations f)
                                 then Inr (obj_set key
                                             (obj_get (field_annotations f) DEFAULT_VALUE) obj)
                                 else
                                   (case createEmptyObjectOfType
                                           (ObjectType e annotations fields) key of
                                      Inl err \<Rightarrow> Inl err
                                    | Inr v \<Rightarrow> Inr (obj_set key v obj))))
                       obj of
                  Inl err \<Rightarrow> Inl err
                | Inr obj' \<Rightarrow> Inr (VObj obj')))
          else Inr value
      | _ \<Rightarrow> Inr value)"


subsection \<open>Deploy: the wire shape\<close>

text \<open>
  The pattern of \<open>checkReferenceToTranslation\<close>,
  \<open>/^netsuite.translationcollection.instance.\w+.strings.string.\w+.scriptid$/\<close>, is a
  sequence of literal characters, dots (any character but a line terminator) and
  \<open>\w+\<close> (one or more letters, digits or underscores, as many as the rest allows).
\<close>

datatype rx = RChar char | RAny | RWordPlus

definition is_word_char :: "char \<Rightarrow> bool" where
  "is_word_char c =
     (let n = (of_char c :: nat) in
      (48 \<le> n \<and> n \<le> 57) \<or> (65 \<le> n \<and> n \<le> 90) \<or> (97 \<le> n \<and> n \<le> 122) \<or> n = 95)"

definition is_line_terminator :: "char \<Rightarrow> bool" where
  "is_line_terminator c = ((of_char c :: nat) = 10 \<or> (of_char c :: nat) = 13)"

fun rx_match :: "rx list \<Rightarrow> string \<Rightarrow> bool" where
  "rx_match [] s = (s = [])"
| "rx_match (r # rs) [] = False"
| "rx_match (RChar c # rs) (x # xs) = (x = c \<and> rx_match rs xs)"
| "rx_match (RAny # rs) (x # xs) = (\<not> is_line_terminator x \<and> rx_match rs xs)"
| "rx_match (RWordPlus # rs) (x # xs) =
     (is_word_char x \<and> (rx_match (RWordPlus # rs) xs \<or> rx_match rs xs))"

definition translation_regex :: "rx list" where
  "translation_regex =
     map RChar ''netsuite'' @ [RAny] @ map RChar ''translationcollection'' @ [RAny]
     @ map RChar ''instance'' @ [RAny, RWordPlus, RAny] @ map RChar ''strings'' @ [RAny]
     @ map RChar ''string'' @ [RAny, RWordPlus, RAny] @ map RChar ''scriptid''"

definition checkReferenceToTranslation :: "string \<Rightarrow> bool" where
  "checkReferenceToTranslation name = rx_match translation_regex name"

definition checkReference :: "string \<Rightarrow> val \<Rightarrow> error + val" where
  "checkReference key value =
     (case js_get value (KStr key) of
        Inl e \<Rightarrow> Inl e
      | Inr v \<Rightarrow>
          (case v of
             VRef elemID \<Rightarrow>
               if key = ''translationScriptId''
               then
                 (let name = getFullName elemID in
                  if checkReferenceToTranslation name
                  then
                    (let nameList = split CHR ''.'' name in
                     case nth_opt nameList 3 of
                       None \<Rightarrow> Inl TypeError
                     | Some collection \<Rightarrow>
                         Inr (VStr (collection @ ''.''
                                    @ (case nth_opt nameList 6 of
                                         None \<Rightarrow> ''undefined''
                                       | Some stringId \<Rightarrow> stringId))))
                  else Inr (VStr name))
               else Inr v
           | _ \<Rightarrow> Inr v))"

definition checkTypeField :: "key \<Rightarrow> val \<Rightarrow> error + val" where
  "checkTypeField key value =
     (case js_get value key of
        Inl e \<Rightarrow> Inl e
      | Inr v \<Rightarrow>
          if isArray v
          then Inr (VObj [(TYPE_attr, VStr ''array''), (ITEM, v)])
          else if isBoolean v
          then Inr (VObj [(TYPE_attr, VStr ''boolean''), (TEXT, VStr (js_String v))])
          else if isString v \<and> isNumberStr (js_String v)
          then Inr (VObj [(TYPE_attr, VStr ''string''), (TEXT, VStr (js_String v))])
          else Inr v)"

definition checkT :: "key \<Rightarrow> val \<Rightarrow> error + val" where
  "checkT key value =
     (case js_get value key of
        Inl e \<Rightarrow> Inl e
      | Inr innerVal \<Rightarrow>
          if (case key of KStr k \<Rightarrow> k \<in> set keysToAddT | KNum i \<Rightarrow> False)
          then Inr (VObj (spread [(T, VStr (case key of KStr k \<Rightarrow> k | KNum i \<Rightarrow> dec i))]
                            innerVal))
          else
            (case innerVal of
               VObj inner \<Rightarrow>
                 (let innerkeys = obj_keys inner in
                  if ''xmlType'' \<in> set innerkeys
                  then Inr (VObj (omit (obj_set T (obj_get inner ''xmlType'') inner) ''xmlType''))
                  else if length innerkeys = 2 \<and> T \<in> set innerkeys
                  then
                    (let otherKey =
                           (case filter (\<lambda>innerKey. innerKey \<noteq> T) innerkeys of
                              [] \<Rightarrow> ''undefined''
                            | k # ks \<Rightarrow> k)
                     in Inr (VObj (spread [(T, obj_get inner T)] (obj_get inner otherKey))))
                  else Inr innerVal)
             | _ \<Rightarrow> Inr innerVal))"


section \<open>The workbook filter\<close>

text \<open>
  The older filter for workbooks alone has its own \<open>fetchTransformFunc\<close>; the workbook
  type it reads from \<open>ParsedWorkbookType()\<close> is a parameter here.
\<close>

definition TValuesToIgnore_workbook :: "string list" where
  "TValuesToIgnore_workbook = [''workbook'']"

definition fetchTransformFunc_workbook ::
  "val \<Rightarrow> field option \<Rightarrow> elemID option \<Rightarrow> typeElem \<Rightarrow> log_entry list \<times> val" where
  "fetchTransformFunc_workbook value field path workbookType =
     (let fieldType = fieldTypeOf path field workbookType;
          logged = (if fieldType = None then [UnexpectedPath path] else [])
      in
      case value of
        VObj obj \<Rightarrow>
          if has_key TYPE_attr obj \<and> obj_get obj TYPE_attr = VStr ''null''
          then (logged, VObj [])
          else if has_key TYPE_attr obj \<and> obj_get obj TYPE_attr = VStr ''array''
          then (logged,
                if obj_get obj ITEM \<noteq> VUndef
                then (if isArray (obj_get obj ITEM) then obj_get obj ITEM
                      else VArr [obj_get obj ITEM])
                else VArr [])
          else if has_key TYPE_attr obj \<and> obj_get obj TYPE_attr = VStr ''boolean''
          then (logged, obj_get obj TEXT)
          else if has_key TYPE_attr obj \<and> obj_get obj TYPE_attr = VStr ''string''
          then (logged, VStr (js_String (obj_get obj TEXT)))
          else if has_key T obj
          then
            (if \<not> is_tagged_union fieldType
             then (logged @ [UnexpectedT path],
                   VObj (spread [(''xmlType'', obj_get obj T)] (VObj (omit obj T))))
             else (logged,
                   if set_has TValuesToIgnore_workbook (obj_get obj T) then VObj (omit obj T)
                   else VObj [(js_String (obj_get obj T), VObj (omit obj T))]))
          else (logged, value)
      | _ \<Rightarrow>
          (case
             (case value of
                VStr str \<Rightarrow>
                  if startsWith str ''custcollectiontranslations''
                  then
                    (let nameParts = split CHR ''.'' str in
                     if length nameParts = 2
                     then
                       (let finalElemIdPath =
                              ''translationcollection.instance.'' @ nameParts ! 0
                              @ ''.strings.string.'' @ nameParts ! 1 @ ''.scriptid''
                        in Some (VRef (ElemID [NETSUITE, finalElemIdPath])))
                     else None)
                  else None
              | _ \<Rightarrow> None) of
             Some reference \<Rightarrow> (logged, reference)
           | None \<Rightarrow>
               (logged,
                if (case fieldType of None \<Rightarrow> False
                    | Some t \<Rightarrow> isEqual (type_elemID t) STRING_elemID)
                then VStr (js_String value)
                else value)))"

section \<open>The workbook change validator\<close>

datatype severity = Error | Warning | Info

datatype changeError = ChangeError elemID severity string string

fun error_severity :: "changeError \<Rightarrow> severity" where
  "error_severity (ChangeError e s m d) = s"

definition unsupportedAttributes :: "string list" where
  "unsupportedAttributes = [''charts'', ''pivots'', ''datasetLinks'']"

definition checkWorkbookValidity :: "instanceElement \<Rightarrow> bool" where
  "checkWorkbookValidity workbookInstance =
     (filter (\<lambda>attr. has_key attr (inst_value workbookInstance)) unsupportedAttributes = [])"

definition workbook_message :: string where
  "workbook_message = ''The deployment of this workbook will probably not have an effect on the target environment as this workbook contains pivots, charts, or data links.''"

definition workbook_detail :: string where
  "workbook_detail = ''Deployment of workbooks that contain pivots, charts, or data links is not supported''"

text \<open>
  The validator reads a change through \<open>isInstanceChange\<close> and \<open>getChangeData\<close> of the
  adapter API, which are parameters here; for an instance change the data is an instance.
\<close>

definition changeValidator ::
  "('c \<Rightarrow> bool) \<Rightarrow> ('c \<Rightarrow> instanceElement) \<Rightarrow> 'c list \<Rightarrow> changeError list" where
  "changeValidator isInstanceChange getChangeData changes =
     map (\<lambda>inst. ChangeError (inst_elemID inst) Warning workbook_message workbook_detail)
       (filter (\<lambda>inst. \<not> checkWorkbookValidity inst)
          (filter (\<lambda>inst. typeName (inst_elemID inst) = WORKBOOK)
             (map getChangeData (filter isInstanceChange changes))))"

section \<open>Shapes named in the properties\<close>

text \<open>
  The wire form of a value, in the words of the deploy re-encoding: a sequence inside an
  \<open>array\<close> wrapper, a boolean inside a \<open>boolean\<close> wrapper with its text, a string that
  reads as a number inside a \<open>string\<close> wrapper, anything else as it is.
\<close>

definition wire_form :: "val \<Rightarrow> val" where
  "wire_form v =
     (case v of
        VArr xs \<Rightarrow> VObj [(''@_type'', VStr ''array''), (''_ITEM_'', VArr xs)]
      | VBool b \<Rightarrow>
          VObj [(''@_type'', VStr ''boolean''),
                (''#text'', VStr (if b then ''true'' else ''false''))]
      | VStr s \<Rightarrow>
          if Number_isNaN s then VStr s
          else VObj [(''@_type'', VStr ''string''), (''#text'', VStr s)]
      | _ \<Rightarrow> v)"

text \<open>A sentinel wrapper that the fetch transform decodes.\<close>

definition is_sentinel :: "Values \<Rightarrow> bool" where
  "is_sentinel obj =
     (has_key ''@_type'' obj
      \<and> obj_get obj ''@_type'' \<in> set [VStr ''null'', VStr ''array'', VStr ''boolean'', VStr ''string''])"

text \<open>
  The sibling translation collection with a given id, from the element source or else
  from the elements of the fetch, and the \<open>scriptid\<close> of one of its strings, as
  \<open>fetchTransformFunc\<close> reads them.
\<close>

definition sibling_document ::
  "(string \<times> element) list \<Rightarrow> element list \<Rightarrow> string \<Rightarrow> element option" where
  "sibling_document elementsSource elements collection =
     (case elementsSource_get elementsSource
             (ElemID [NETSUITE, ''translationcollection'', ''instance'', collection]) of
        Some e \<Rightarrow> Some e
      | None \<Rightarrow>
          find (\<lambda>e. getFullName (element_elemID e)
                     = getFullName
                         (ElemID [NETSUITE, ''translationcollection'', ''instance'', collection]))
            elements)"

definition string_scriptid :: "element \<Rightarrow> string \<Rightarrow> val" where
  "string_scriptid instance stringId =
     opt_get (opt_get (opt_get (opt_get (element_value instance) ''strings'') ''string'') stringId)
       ''scriptid''"

definition translation_field :: "string \<Rightarrow> string \<Rightarrow> elemID" where
  "translation_field collection stringId =
     ElemID [''netsuite'', ''translationcollection'', ''instance'', collection,
             ''strings'', ''string'', stringId, ''scriptid'']"

text \<open>
  The sibling document of the round-trip scenario: the translation collection
  \<open>custcollectiontranslations123\<close> with \<open>strings.string.greeting.scriptid = "abc"\<close>.
\<close>

definition greeting_collection :: element where
  "greeting_collection =
     Instance (InstanceElement
       (ElemID [''netsuite'', ''translationcollection'', ''instance'',
                ''custcollectiontranslations123''])
       [(''strings'',
         VObj [(''string'', VObj [(''greeting'', VObj [(''scriptid'', VStr ''abc'')])])])])"

text \<open>The fields of a plain object type that \<open>createEmptyObjectOfType\<close> fills in.\<close>

definition addable :: "typeElem \<Rightarrow> string list" where
  "addable keyType =
     filter (\<lambda>innerKey.
        case map_of (type_fields keyType) innerKey of
          None \<Rightarrow> False
        | Some f \<Rightarrow> \<not> has_key DO_NOT_ADD (field_annotations f))
      (map fst (type_fields keyType))"

text \<open>
  Four types of the dataset schema as \<open>ParsedDatasetType\<close> builds them: the translation,
  the operator with its default, the formula body, which is annotated \<open>XML_TYPE\<close> and
  \<open>IGNORE_T_VALUE\<close>, and the formula, whose \<open>fields\<close> is a list.
\<close>

definition BuiltinTypes_STRING :: typeElem where
  "BuiltinTypes_STRING = PrimitiveType STRING_elemID"

definition datasetTranslation :: typeElem where
  "datasetTranslation =
     ObjectType (ElemID [''netsuite'', ''dataset_translation'']) []
       [(''translationScriptId'', Field BuiltinTypes_STRING [])]"

definition datasetOperator :: typeElem where
  "datasetOperator =
     ObjectType (ElemID [''netsuite'', ''dataset_operator'']) []
       [(''code'', Field BuiltinTypes_STRING [(''DEFAULT_VALUE'', VStr ''AND'')])]"

definition datasetFormulaFormula :: typeElem where
  "datasetFormulaFormula =
     ObjectType (ElemID [''netsuite'', ''dataset_formula_formula''])
       [(''XML_TYPE'', VStr ''formula''), (''IGNORE_T_VALUE'', VBool True)]
       [(''dataType'', Field BuiltinTypes_STRING []),
        (''formulaSQL'', Field BuiltinTypes_STRING []),
        (''id'', Field BuiltinTypes_STRING []),
        (''label'', Field datasetTranslation []),
        (''uniqueId'', Field BuiltinTypes_STRING [])]"

definition datasetFormula :: typeElem where
  "datasetFormula =
     ObjectType (ElemID [''netsuite'', ''dataset_formula'']) []
       [(''fields'', Field (ContainerType (ElemID [''netsuite'', ''dataset_fieldOrFormula''])) []),
        (''formula'', Field datasetFormulaFormula [])]"

text \<open>
  The tagged union of a field reference and a formula, with the types of the field
  reference.
\<close>

definition datasetBaseRecord :: typeElem where
  "datasetBaseRecord =
     ObjectType (ElemID [''netsuite'', ''dataset_baseRecord'']) []
       [(''id'', Field BuiltinTypes_STRING []), (''label'', Field BuiltinTypes_STRING [])]"

definition datasetJoinTrail :: typeElem where
  "datasetJoinTrail =
     ObjectType (ElemID [''netsuite'', ''dataset_joinTrail'']) []
       [(''baseRecord'', Field datasetBaseRecord []),
        (''joins'', Field (ContainerType (ElemID [''netsuite'', ''dataset_join''])) [])]"

definition datasetFieldReference :: typeElem where
  "datasetFieldReference =
     ObjectType (ElemID [''netsuite'', ''dataset_fieldReference'']) []
       [(''id'', Field BuiltinTypes_STRING []),
        (''joinTrail'', Field datasetJoinTrail []),
        (''label'', Field BuiltinTypes_STRING []),
        (''uniqueId'', Field BuiltinTypes_STRING []),
        (''fieldValidityState'', Field BuiltinTypes_STRING [(''DO_NOT_ADD'', VBool True)])]"

definition datasetFieldOrFormula :: typeElem where
  "datasetFieldOrFormula =
     ObjectType (ElemID [''netsuite'', ''dataset_fieldOrFormula''])
       [(''XML_TYPE'', VBool True)]
       [(''fieldReference'', Field datasetFieldReference [(''DO_NOT_ADD'', VBool True)]),
        (''dataSetFormula'', Field datasetFormula [(''DO_NOT_ADD'', VBool True)])]"

text \<open>
  The mapping \<open>s'\<close> has every field of \<open>s\<close> with the same value, and its other fields
  are among \<open>K\<close>.
\<close>

definition grows :: "string set \<Rightarrow> Values \<Rightarrow> Values \<Rightarrow> bool" where
  "grows K s s' \<longleftrightarrow> map_of s \<subseteq>\<^sub>m map_of s' \<and> dom (map_of s') \<subseteq> dom (map_of s) \<union> K"


text \<open>The condition of a dataset criterion, with the types of its fields.\<close>

definition BuiltinTypes_UNKNOWN :: typeElem where
  "BuiltinTypes_UNKNOWN = PrimitiveType (ElemID [''unknown''])"

definition datasetMeta :: typeElem where
  "datasetMeta =
     ObjectType (ElemID [''netsuite'', ''dataset_meta'']) []
       [(''selectorType'', Field BuiltinTypes_UNKNOWN []),
        (''subType'', Field BuiltinTypes_STRING [])]"

definition datasetTargetFieldContext :: typeElem where
  "datasetTargetFieldContext =
     ObjectType (ElemID [''netsuite'', ''dataset_criteria_TargetFieldContext'']) []
       [(''name'', Field BuiltinTypes_STRING [(''DEFAULT_VALUE'', VStr ''DEFAULT'')])]"

definition datasetCondition :: typeElem where
  "datasetCondition =
     ObjectType (ElemID [''netsuite'', ''dataset_condition'']) []
       [(''children'', Field (ContainerType (ElemID [''netsuite'', ''dataset_criteria''])) []),
        (''operator'', Field datasetOperator []),
        (''targetFieldContext'', Field datasetTargetFieldContext []),
        (''meta'', Field datasetMeta []),
        (''field'', Field datasetFieldOrFormula []),
        (''fieldStateName'', Field BuiltinTypes_STRING [])]"


section \<open>Basic facts about objects\<close>

lemma has_key_iff: "has_key k kvs \<longleftrightarrow> k \<in> set (map fst kvs)"
  by (simp add: has_key_def map_of_eq_None_iff)

lemma map_of_obj_insert:
  "map_of (obj_insert k v kvs) = (map_of kvs)(k \<mapsto> v)" if "\<not> has_key k kvs"
  using that
proof (induction kvs)
  case Nil
  then show ?case by simp
next
  case (Cons p kvs)
  obtain k' v' where p: "p = (k', v')" by (cases p)
  from Cons.prems p have ne: "k' \<noteq> k" and nk: "\<not> has_key k kvs"
    by (auto simp: has_key_def split: if_splits)
  show ?case using Cons.IH [OF nk] ne p by (auto simp: fun_upd_twist)
qed

lemma map_of_obj_set: "map_of (obj_set k v kvs) = (map_of kvs)(k \<mapsto> v)"
  by (simp add: obj_set_def map_of_obj_insert update_conv')

lemma map_of_assign: "map_of (assign target src) = map_of target ++ map_of (rev src)"
proof (induction src arbitrary: target)
  case Nil
  then show ?case by (simp add: assign_def)
next
  case (Cons p src)
  obtain k v where p: "p = (k, v)" by (cases p)
  have "map_of (assign target (p # src)) = map_of (assign (obj_set k v target) src)"
    by (simp add: assign_def p)
  also have "\<dots> = map_of (obj_set k v target) ++ map_of (rev src)"
    by (rule Cons.IH)
  also have "\<dots> = map_of target ++ map_of (rev (p # src))"
    by (simp add: map_of_obj_set p map_add_def fun_eq_iff split: option.splits)
  finally show ?case .
qed

lemma map_of_rev_distinct: "distinct (map fst kvs) \<Longrightarrow> map_of (rev kvs) = map_of kvs"
  by (simp add: map_of_inject_set distinct_rev rev_map[symmetric])

lemma map_of_omit: "map_of (omit kvs k) = (map_of kvs)(k := None)"
  by (simp add: omit_def delete_conv')

lemma obj_insert_plain: "\<not> is_array_index k \<Longrightarrow> obj_insert k v kvs = kvs @ [(k, v)]"
  by (induction kvs) auto

lemma assign_plain:
  "distinct (map fst src)
   \<Longrightarrow> list_all (\<lambda>k. \<not> is_array_index k \<and> \<not> has_key k target) (map fst src)
   \<Longrightarrow> assign target src = target @ src"
proof (induction src arbitrary: target)
  case Nil
  then show ?case by (simp add: assign_def)
next
  case (Cons p src)
  obtain k v where p: "p = (k, v)" by (cases p)
  have first: "obj_set k v target = target @ [(k, v)]"
    using Cons.prems(2) p by (simp add: obj_set_def obj_insert_plain)
  have "assign target (p # src) = assign (target @ [(k, v)]) src"
    by (simp add: assign_def p first)
  also have "\<dots> = (target @ [(k, v)]) @ src"
    using Cons.prems p by (intro Cons.IH) (auto simp: list_all_iff has_key_iff)
  finally show ?case by (simp add: p)
qed

lemma js_get_obj: "js_get (VObj obj) (KStr k) = Inr (obj_get obj k)"
  by (simp add: js_get_def opt_get_def)


section \<open>Decoding and encoding sentinel wrappers\<close>

lemma fetch_sentinel:
  assumes "is_sentinel obj"
  shows "fetchTransformFunc (VObj obj) field path elementsSource elements type =
     ((if fieldTypeOf path field type = None then [UnexpectedPath path] else []),
      (if obj_get obj TYPE_attr = VStr ''null'' then VObj []
       else if obj_get obj TYPE_attr = VStr ''array''
       then (case obj_get obj ITEM of VUndef \<Rightarrow> VArr [] | VArr xs \<Rightarrow> VArr xs
             | payload \<Rightarrow> VArr [payload])
       else if obj_get obj TYPE_attr = VStr ''boolean'' then obj_get obj TEXT
       else VStr (js_String (obj_get obj TEXT))))"
  using assms
  by (auto simp: fetchTransformFunc_def is_sentinel_def TYPE_attr_def Let_def isArray_def
      split: val.splits)

lemma checkTypeField_wire_form:
  "js_get value key = Inr v \<Longrightarrow> checkTypeField key value = Inr (wire_form v)"
  by (cases v)
     (simp_all add: checkTypeField_def wire_form_def isArray_def isBoolean_def isString_def
        isNumberStr_def TYPE_attr_def ITEM_def TEXT_def)


lemma fetch_wire_form:
  "snd (fetchTransformFunc (wire_form (VArr xs)) field path elementsSource elements type) = VArr xs"
  "\<not> Number_isNaN s \<Longrightarrow>
   snd (fetchTransformFunc (wire_form (VStr s)) field path elementsSource elements type) = VStr s"
  "snd (fetchTransformFunc (wire_form (VBool b)) field path elementsSource elements type)
     = VStr (if b then ''true'' else ''false'')"
  by (simp_all add: wire_form_def fetch_sentinel is_sentinel_def has_key_def obj_get_def
        TYPE_attr_def ITEM_def TEXT_def)

text \<open>
  C1, as the code has it. For a plain object whose \<open>@_type\<close> is one of the four kinds,
  the fetch transform answers the empty mapping for \<open>null\<close>; for \<open>array\<close> the
  \<open>_ITEM_\<close> payload itself when it is a sequence, the empty sequence when it is absent
  and the one-element sequence of the payload otherwise; for \<open>string\<close> the \<open>#text\<close>
  payload turned into a string; and for \<open>boolean\<close> the \<open>#text\<close> payload as it is,
  with no conversion.
\<close>

theorem fetch_decodes_sentinel:
  assumes "has_key TYPE_attr obj" and "obj_get obj TYPE_attr = VStr kind"
    and "kind \<in> set [''null'', ''array'', ''boolean'', ''string'']"
  shows "snd (fetchTransformFunc (VObj obj) field path elementsSource elements type) =
     (if kind = ''null'' then VObj []
      else if kind = ''array''
      then (case obj_get obj ITEM of VUndef \<Rightarrow> VArr [] | VArr xs \<Rightarrow> VArr xs
            | payload \<Rightarrow> VArr [payload])
      else if kind = ''boolean'' then obj_get obj TEXT
      else VStr (js_String (obj_get obj TEXT)))"
proof -
  have "is_sentinel obj"
    using assms by (auto simp: is_sentinel_def TYPE_attr_def)
  from fetch_sentinel [OF this] assms(2,3) show ?thesis
    by auto
qed

theorem fetch_decodes_sentinel_witness:
  "snd (fetchTransformFunc (VObj [(''@_type'', VStr ''array''), (''_ITEM_'', VStr ''x'')])
          None None [] [] (PrimitiveType STRING_elemID)) = VArr [VStr ''x'']"
  using fetch_decodes_sentinel
    [of "[(''@_type'', VStr ''array''), (''_ITEM_'', VStr ''x'')]" "''array''"
        None None "[]" "[]" "PrimitiveType STRING_elemID"]
  by (simp add: has_key_def obj_get_def TYPE_attr_def ITEM_def)

text \<open>
  C1 as stated fails for \<open>boolean\<close>: a text payload \<open>"true"\<close> comes back as the string
  \<open>"true"\<close>, not as a boolean.
\<close>

theorem fetch_boolean_text_not_cast:
  "snd (fetchTransformFunc (VObj [(''@_type'', VStr ''boolean''), (''#text'', VStr ''true'')])
          None None [] [] (PrimitiveType STRING_elemID)) = VStr ''true''
   \<and> \<not> isBoolean (snd (fetchTransformFunc
          (VObj [(''@_type'', VStr ''boolean''), (''#text'', VStr ''true'')])
          None None [] [] (PrimitiveType STRING_elemID)))"
  by (simp add: fetchTransformFunc_def has_key_def obj_get_def TYPE_attr_def TEXT_def
      isBoolean_def Let_def)

text \<open>
  C2, as the code has it. \<open>checkTypeField\<close> puts the value it reads into wire form.
  For a sequence and for a string that reads as a number, decoding the wrapper gives the
  value back, and encoding the decoded value gives the wrapper back. For a boolean the
  wrapper carries the text \<open>true\<close> or \<open>false\<close>, and decoding it gives that text as a
  string.
\<close>

theorem sentinel_encode_decode:
  assumes "js_get value key = Inr v"
  shows "checkTypeField key value = Inr (wire_form v)
    \<and> (isArray v \<or> (\<exists>s. v = VStr s \<and> isNumberStr s) \<longrightarrow>
         snd (fetchTransformFunc (wire_form v) field path elementsSource elements type) = v
         \<and> checkTypeField (KStr k)
             (VObj [(k, snd (fetchTransformFunc (wire_form v) field path elementsSource
                               elements type))])
           = Inr (wire_form v))
    \<and> (\<forall>b. v = VBool b \<longrightarrow>
         wire_form v = VObj [(TYPE_attr, VStr ''boolean''), (TEXT, VStr (js_String v))]
         \<and> snd (fetchTransformFunc (wire_form v) field path elementsSource elements type)
           = VStr (js_String v))"
proof -
  have enc: "checkTypeField key value = Inr (wire_form v)"
    using assms by (rule checkTypeField_wire_form)
  have again: "checkTypeField (KStr k) (VObj [(k, u)]) = Inr (wire_form u)" for u
    by (rule checkTypeField_wire_form) (simp add: js_get_obj obj_get_def)
  have arr: "isArray v \<or> (\<exists>s. v = VStr s \<and> isNumberStr s) \<longrightarrow>
         snd (fetchTransformFunc (wire_form v) field path elementsSource elements type) = v
         \<and> checkTypeField (KStr k)
             (VObj [(k, snd (fetchTransformFunc (wire_form v) field path elementsSource
                               elements type))])
           = Inr (wire_form v)"
    by (cases v) (auto simp: isArray_def isNumberStr_def fetch_wire_form again)
  have bool: "\<forall>b. v = VBool b \<longrightarrow>
         wire_form v = VObj [(TYPE_attr, VStr ''boolean''), (TEXT, VStr (js_String v))]
         \<and> snd (fetchTransformFunc (wire_form v) field path elementsSource elements type)
           = VStr (js_String v)"
    by (auto simp: fetch_wire_form) (simp_all add: wire_form_def TYPE_attr_def TEXT_def)
  from enc arr bool show ?thesis by blast
qed

theorem sentinel_encode_decode_witness:
  "checkTypeField (KStr ''limit'') (VObj [(''limit'', VStr ''12'')])
     = Inr (VObj [(''@_type'', VStr ''string''), (''#text'', VStr ''12'')])
   \<and> snd (fetchTransformFunc (VObj [(''@_type'', VStr ''string''), (''#text'', VStr ''12'')])
            None None [] [] (PrimitiveType STRING_elemID)) = VStr ''12''"
proof -
  have read: "js_get (VObj [(''limit'', VStr ''12'')]) (KStr ''limit'') = Inr (VStr ''12'')"
    by (simp add: js_get_obj obj_get_def)
  have num: "isNumberStr ''12''"
    by code_simp
  then have form: "wire_form (VStr ''12'')
      = VObj [(''@_type'', VStr ''string''), (''#text'', VStr ''12'')]"
    by (simp add: wire_form_def isNumberStr_def)
  from sentinel_encode_decode [OF read, of None None "[]" "[]" "PrimitiveType STRING_elemID"]
    num form
  show ?thesis by auto
qed

text \<open>
  C2 as stated fails: the boolean \<open>true\<close> is encoded as the wrapper with text
  \<open>"true"\<close>, which does not decode to the boolean; and the \<open>null\<close> wrapper decodes
  to the empty mapping, which is not encoded back into a wrapper.
\<close>

theorem sentinel_round_trip_fails:
  "checkTypeField (KStr ''visible'') (VObj [(''visible'', VBool True)])
     = Inr (VObj [(''@_type'', VStr ''boolean''), (''#text'', VStr ''true'')])
   \<and> snd (fetchTransformFunc (VObj [(''@_type'', VStr ''boolean''), (''#text'', VStr ''true'')])
            None None [] [] (PrimitiveType STRING_elemID)) \<noteq> VBool True
   \<and> snd (fetchTransformFunc (VObj [(''@_type'', VStr ''null'')])
            None None [] [] (PrimitiveType STRING_elemID)) = VObj []
   \<and> checkTypeField (KStr ''filter'') (VObj [(''filter'', VObj [])])
     \<noteq> Inr (VObj [(''@_type'', VStr ''null'')])"
  by (simp add: checkTypeField_def js_get_obj obj_get_def isArray_def isBoolean_def
      isString_def fetchTransformFunc_def has_key_def TYPE_attr_def TEXT_def Let_def)

section \<open>A discriminator where the schema expects none\<close>

text \<open>
  C9, as the code has it. Take a plain object with distinct keys that has the key \<open>_T_\<close>
  and is not a sentinel wrapper of one of the four kinds, at a position whose type is not
  an object type annotated \<open>XML_TYPE\<close> (or is not known at all). The fetch transform
  logs the unexpected discriminator and answers the object without \<open>_T_\<close>, every other
  field as it was, and with the field \<open>xmlType\<close>; that field holds the discriminator
  unless the object has an \<open>xmlType\<close> of its own, which then stays. When no key is an
  array index and there is no \<open>xmlType\<close> already, \<open>xmlType\<close> comes first and the
  remaining fields follow in their order.
\<close>

theorem fetch_unexpected_discriminator:
  assumes tag: "has_key T obj" and plain: "\<not> is_sentinel obj"
    and node: "\<not> is_tagged_union (fieldTypeOf path field type)"
    and wf: "distinct (map fst obj)"
  shows "\<exists>logged r.
      fetchTransformFunc (VObj obj) field path elementsSource elements type = (logged, VObj r)
      \<and> UnexpectedT path \<in> set logged
      \<and> r = spread [(''xmlType'', obj_get obj T)] (VObj (omit obj T))
      \<and> \<not> has_key T r
      \<and> obj_get r ''xmlType''
          = (if has_key ''xmlType'' obj then obj_get obj ''xmlType'' else obj_get obj T)
      \<and> (\<forall>k. k \<noteq> T \<and> k \<noteq> ''xmlType'' \<longrightarrow>
             has_key k r = has_key k obj \<and> obj_get r k = obj_get obj k)
      \<and> (\<not> has_key ''xmlType'' obj \<and> list_all (\<lambda>k. \<not> is_array_index k) (map fst obj) \<longrightarrow>
             r = (''xmlType'', obj_get obj T) # omit obj T)"
proof -
  define t where "t = obj_get obj T"
  define r where "r = spread [(''xmlType'', t)] (VObj (omit obj T))"
  define logged where "logged =
    (if fieldTypeOf path field type = None then [UnexpectedPath path] else [])
    @ [UnexpectedT path]"
  have run: "fetchTransformFunc (VObj obj) field path elementsSource elements type
      = (logged, VObj r)"
    using tag plain node
    by (auto simp: fetchTransformFunc_def is_sentinel_def TYPE_attr_def Let_def r_def t_def
        logged_def)
  have dist: "distinct (map fst (omit obj T))"
    using wf by (simp add: omit_def distinct_delete)
  have look: "map_of r = [''xmlType'' \<mapsto> t] ++ (map_of obj)(T := None)"
    by (simp add: r_def spread_def own_entries_def map_of_assign map_of_rev_distinct [OF dist]
        map_of_omit)
  have noT: "\<not> has_key T r"
    by (simp add: has_key_def look map_add_def T_def)
  have marker: "obj_get r ''xmlType''
      = (if has_key ''xmlType'' obj then obj_get obj ''xmlType'' else t)"
    by (auto simp: obj_get_def has_key_def look map_add_def T_def split: option.splits)
  have rest: "\<forall>k. k \<noteq> T \<and> k \<noteq> ''xmlType'' \<longrightarrow>
             has_key k r = has_key k obj \<and> obj_get r k = obj_get obj k"
    by (auto simp: obj_get_def has_key_def look map_add_def split: option.splits)
  have order: "\<not> has_key ''xmlType'' obj \<and> list_all (\<lambda>k. \<not> is_array_index k) (map fst obj) \<longrightarrow>
             r = (''xmlType'', t) # omit obj T"
  proof
    assume a: "\<not> has_key ''xmlType'' obj \<and> list_all (\<lambda>k. \<not> is_array_index k) (map fst obj)"
    have "list_all (\<lambda>k. \<not> is_array_index k \<and> \<not> has_key k [(''xmlType'', t)])
            (map fst (omit obj T))"
      using a by (force simp: list_all_iff has_key_iff omit_def delete_keys)
    from assign_plain [OF dist this] show "r = (''xmlType'', t) # omit obj T"
      by (simp add: r_def spread_def own_entries_def)
  qed
  have "UnexpectedT path \<in> set logged"
    by (simp add: logged_def)
  with run noT marker rest order show ?thesis
    unfolding r_def t_def by blast
qed

theorem fetch_unexpected_discriminator_witness:
  "\<exists>logged.
     fetchTransformFunc (VObj [(''_T_'', VStr ''fieldReference''), (''id'', VStr ''x'')])
       None None [] [] (PrimitiveType STRING_elemID)
     = (logged, VObj [(''xmlType'', VStr ''fieldReference''), (''id'', VStr ''x'')])
     \<and> UnexpectedT None \<in> set logged"
proof -
  define obj where "obj = [(''_T_'', VStr ''fieldReference''), (''id'', VStr ''x'')]"
  have tag: "has_key T obj"
    by (simp add: has_key_def T_def obj_def)
  have plain: "\<not> is_sentinel obj"
    by (simp add: is_sentinel_def has_key_def obj_def)
  have node: "\<not> is_tagged_union (fieldTypeOf None None (PrimitiveType STRING_elemID))"
    by (simp add: is_tagged_union_def fieldTypeOf_def)
  have wf: "distinct (map fst obj)"
    by (simp add: obj_def)
  have idx: "\<not> has_key ''xmlType'' obj \<and> list_all (\<lambda>k. \<not> is_array_index k) (map fst obj)"
    by (simp add: is_array_index_def is_digit_def has_key_def obj_def)
  have shape: "(''xmlType'', obj_get obj T) # omit obj T
      = [(''xmlType'', VStr ''fieldReference''), (''id'', VStr ''x'')]"
    by (simp add: obj_get_def omit_def T_def obj_def)
  from fetch_unexpected_discriminator [OF tag plain node wf, of "[]" "[]"]
  obtain logged r where
    run: "fetchTransformFunc (VObj obj) None None [] [] (PrimitiveType STRING_elemID)
          = (logged, VObj r)"
    and log: "UnexpectedT None \<in> set logged"
    and order: "\<not> has_key ''xmlType'' obj
                \<and> list_all (\<lambda>k. \<not> is_array_index k) (map fst obj)
                \<longrightarrow> r = (''xmlType'', obj_get obj T) # omit obj T"
    by blast
  from order idx shape have "r = [(''xmlType'', VStr ''fieldReference''), (''id'', VStr ''x'')]"
    by simp
  with run log show ?thesis
    unfolding obj_def by blast
qed

text \<open>
  C9 as stated fails in two places: an object that has \<open>_T_\<close> and is also a \<open>null\<close>
  wrapper is decoded as the wrapper, and an \<open>xmlType\<close> field of the object itself takes
  the place of the discriminator.
\<close>

theorem fetch_discriminator_not_exposed:
  "fetchTransformFunc (VObj [(''_T_'', VStr ''formula''), (''@_type'', VStr ''null'')])
     None None [] [] (PrimitiveType STRING_elemID)
   = ([UnexpectedPath None], VObj [])
   \<and> fetchTransformFunc (VObj [(''_T_'', VStr ''a''), (''xmlType'', VStr ''b'')])
       None None [] [] (PrimitiveType STRING_elemID)
     = ([UnexpectedPath None, UnexpectedT None], VObj [(''xmlType'', VStr ''b'')])"
  by (simp add: fetchTransformFunc_def has_key_def obj_get_def TYPE_attr_def T_def Let_def
      fieldTypeOf_def is_tagged_union_def spread_def own_entries_def assign_def obj_set_def
      omit_def)

section \<open>References to translation strings\<close>

lemma split_no_sep: "c \<notin> set xs \<Longrightarrow> split c xs = [xs]"
  by (induction xs) auto

lemma split_append: "c \<notin> set xs \<Longrightarrow> split c (xs @ c # ys) = xs # split c ys"
  by (induction xs) auto

lemma rx_lit: "rx_match (map RChar l @ rs) (l @ s) = rx_match rs s"
  by (induction l) auto

lemma rx_word:
  "w \<noteq> [] \<Longrightarrow> list_all is_word_char w \<Longrightarrow> rx_match rs s \<Longrightarrow> rx_match (RWordPlus # rs) (w @ s)"
proof (induction w)
  case Nil
  then show ?case by simp
next
  case (Cons x w)
  show ?case
  proof (cases w)
    case Nil
    with Cons.prems show ?thesis by simp
  next
    case (Cons y ys)
    with Cons.prems Cons.IH show ?thesis by simp
  qed
qed

lemma word_no_dot: "list_all is_word_char w \<Longrightarrow> CHR ''.'' \<notin> set w"
  by (auto simp: list_all_iff is_word_char_def)

lemma translation_name:
  "getFullName (translation_field c s)
     = ''netsuite.translationcollection.instance.'' @ c @ ''.strings.string.'' @ s @ ''.scriptid''"
  by (simp add: getFullName_def translation_field_def join_def)

lemma translation_name_matches:
  assumes "c \<noteq> []" "list_all is_word_char c" "s \<noteq> []" "list_all is_word_char s"
  shows "checkReferenceToTranslation (getFullName (translation_field c s))"
proof -
  have tail: "rx_match ([RAny] @ map RChar ''scriptid'') (''.scriptid'')"
    by (simp add: is_line_terminator_def)
  have s_part: "rx_match (RWordPlus # [RAny] @ map RChar ''scriptid'') (s @ ''.scriptid'')"
    using assms(3,4) tail by (rule rx_word)
  have mid: "rx_match ([RAny] @ map RChar ''strings'' @ [RAny] @ map RChar ''string''
                @ [RAny, RWordPlus, RAny] @ map RChar ''scriptid'')
               (''.strings.string.'' @ s @ ''.scriptid'')"
    using s_part by (simp add: is_line_terminator_def)
  have c_part: "rx_match (RWordPlus # [RAny] @ map RChar ''strings'' @ [RAny] @ map RChar ''string''
                @ [RAny, RWordPlus, RAny] @ map RChar ''scriptid'')
               (c @ ''.strings.string.'' @ s @ ''.scriptid'')"
    using assms(1,2) mid by (rule rx_word)
  then show ?thesis
    by (simp add: checkReferenceToTranslation_def translation_regex_def translation_name
        is_line_terminator_def)
qed

lemma translation_name_split:
  assumes "list_all is_word_char c" "list_all is_word_char s"
  shows "split CHR ''.'' (getFullName (translation_field c s))
     = [''netsuite'', ''translationcollection'', ''instance'', c, ''strings'', ''string'', s,
        ''scriptid'']"
proof -
  have c: "CHR ''.'' \<notin> set c" and s: "CHR ''.'' \<notin> set s"
    using assms by (auto dest: word_no_dot)
  have end_part: "split CHR ''.'' (s @ CHR ''.'' # ''scriptid'') = [s, ''scriptid'']"
    using s by (simp add: split_append)
  have "split CHR ''.'' (c @ CHR ''.'' # ''strings.string.'' @ s @ ''.scriptid'')
      = c # split CHR ''.'' (''strings.string.'' @ s @ ''.scriptid'')"
    using c by (rule split_append)
  also have "split CHR ''.'' (''strings.string.'' @ s @ ''.scriptid'')
      = [''strings'', ''string'', s, ''scriptid'']"
    using end_part by simp
  finally have "split CHR ''.'' (c @ ''.strings.string.'' @ s @ ''.scriptid'')
      = [c, ''strings'', ''string'', s, ''scriptid'']"
    by simp
  then show ?thesis
    by (simp add: translation_name)
qed

lemma checkReference_translation:
  assumes "c \<noteq> []" "list_all is_word_char c" "s \<noteq> []" "list_all is_word_char s"
  shows "checkReference ''translationScriptId''
           (VObj [(''translationScriptId'', VRef (translation_field c s))])
         = Inr (VStr (c @ ''.'' @ s))"
  using translation_name_matches [OF assms] translation_name_split [OF assms(2,4)]
  by (simp add: checkReference_def js_get_obj obj_get_def nth_opt_def)

lemma fetch_string:
  "fetchTransformFunc (VStr str) field path elementsSource elements type =
     ((if fieldTypeOf path field type = None then [UnexpectedPath path] else []),
      (case (if startsWith str ''custcollectiontranslations''
                \<and> length (split CHR ''.'' str) = 2
             then (case sibling_document elementsSource elements (split CHR ''.'' str ! 0) of
                     None \<Rightarrow> None
                   | Some i \<Rightarrow>
                       if string_scriptid i (split CHR ''.'' str ! 1) \<noteq> VUndef
                       then Some (VRef (translation_field (split CHR ''.'' str ! 0)
                                          (split CHR ''.'' str ! 1)))
                       else None)
             else None) of
         Some reference \<Rightarrow> reference
       | None \<Rightarrow> VStr str))"
  by (simp add: fetchTransformFunc_def Let_def sibling_document_def string_scriptid_def
      translation_field_def createNestedID_def NETSUITE_def split: option.splits)


lemma fetch_unresolved_reference_unchanged:
  assumes "sibling_document elementsSource elements (split CHR ''.'' str ! 0) = None
           \<or> (\<exists>i. sibling_document elementsSource elements (split CHR ''.'' str ! 0) = Some i
                   \<and> string_scriptid i (split CHR ''.'' str ! 1) = VUndef)"
  shows "snd (fetchTransformFunc (VStr str) field path elementsSource elements type) = VStr str"
  unfolding fetch_string using assms by auto

text \<open>
  C6, as the code has it. Take a collection id \<open>custcollectiontranslations\<close> followed by
  letters, digits or underscores, and a string id of one or more such characters. When the
  sibling translation collection is found and holds a \<open>scriptid\<close> for that string, the
  fetch transform turns the text \<open>collection.string\<close> into the reference to
  \<open>netsuite.translationcollection.instance.collection.strings.string.string.scriptid\<close>,
  and \<open>checkReference\<close> turns that reference, under the key \<open>translationScriptId\<close>,
  back into the text it came from.
\<close>

theorem translation_reference_round_trip:
  assumes n: "list_all is_word_char n" and s: "s \<noteq> []" "list_all is_word_char s"
    and doc: "sibling_document elementsSource elements (''custcollectiontranslations'' @ n) = Some i"
    and entry: "string_scriptid i s \<noteq> VUndef"
  shows "snd (fetchTransformFunc (VStr (''custcollectiontranslations'' @ n @ ''.'' @ s))
                field path elementsSource elements type)
           = VRef (translation_field (''custcollectiontranslations'' @ n) s)
         \<and> checkReference ''translationScriptId''
             (VObj [(''translationScriptId'',
                     VRef (translation_field (''custcollectiontranslations'' @ n) s))])
           = Inr (VStr (''custcollectiontranslations'' @ n @ ''.'' @ s))"
proof -
  let ?c = "''custcollectiontranslations'' @ n"
  have c: "?c \<noteq> []" "list_all is_word_char ?c"
    using n by (simp_all add: is_word_char_def)
  have parts: "split CHR ''.'' (?c @ ''.'' @ s) = [?c, s]"
    using split_append [of "CHR ''.''" ?c s] word_no_dot [OF c(2)] word_no_dot [OF s(2)]
    by (simp add: split_no_sep)
  have pre: "startsWith (?c @ ''.'' @ s) ''custcollectiontranslations''"
    by (simp add: startsWith_def)
  have "snd (fetchTransformFunc (VStr (?c @ ''.'' @ s)) field path elementsSource elements type)
      = VRef (translation_field ?c s)"
    unfolding fetch_string using pre parts doc entry by simp
  moreover have "checkReference ''translationScriptId''
             (VObj [(''translationScriptId'', VRef (translation_field ?c s))])
           = Inr (VStr (?c @ ''.'' @ s))"
    using c s by (rule checkReference_translation)
  ultimately show ?thesis by simp
qed

theorem translation_reference_round_trip_witness:
  "snd (fetchTransformFunc (VStr ''custcollectiontranslations123.greeting'') None None []
          [greeting_collection] (PrimitiveType STRING_elemID))
     = VRef (translation_field ''custcollectiontranslations123'' ''greeting'')
   \<and> checkReference ''translationScriptId''
       (VObj [(''translationScriptId'',
               VRef (translation_field ''custcollectiontranslations123'' ''greeting''))])
     = Inr (VStr ''custcollectiontranslations123.greeting'')"
proof -
  have n: "list_all is_word_char ''123''"
    by (simp add: is_word_char_def)
  have s: "''greeting'' \<noteq> []" "list_all is_word_char ''greeting''"
    by (simp_all add: is_word_char_def)
  have doc: "sibling_document [] [greeting_collection] (''custcollectiontranslations'' @ ''123'')
      = Some greeting_collection"
    by (simp add: sibling_document_def elementsSource_get_def greeting_collection_def
        getFullName_def join_def NETSUITE_def)
  have entry: "string_scriptid greeting_collection ''greeting'' \<noteq> VUndef"
    by (simp add: string_scriptid_def greeting_collection_def opt_get_def obj_get_def)
  from translation_reference_round_trip
    [OF n s doc entry, of None None "PrimitiveType STRING_elemID"]
  show ?thesis by simp
qed

text \<open>
  C6 as stated fails in its last step: the reference is turned back into
  \<open>custcollectiontranslations123.greeting\<close>, the whole of the original text, not into
  \<open>123.greeting\<close>.
\<close>

theorem translation_reference_text_not_shortened:
  "checkReference ''translationScriptId''
     (VObj [(''translationScriptId'',
             VRef (translation_field ''custcollectiontranslations123'' ''greeting''))])
   = Inr (VStr ''custcollectiontranslations123.greeting'')
   \<and> checkReference ''translationScriptId''
       (VObj [(''translationScriptId'',
               VRef (translation_field ''custcollectiontranslations123'' ''greeting''))])
     \<noteq> Inr (VStr ''123.greeting'')"
proof -
  have "checkReference ''translationScriptId''
     (VObj [(''translationScriptId'',
             VRef (translation_field ''custcollectiontranslations123'' ''greeting''))])
   = Inr (VStr (''custcollectiontranslations123'' @ ''.'' @ ''greeting''))"
    by (rule checkReference_translation) (simp_all add: is_word_char_def)
  then show ?thesis by simp
qed

text \<open>
  C7. With no sibling document at all, the fetch transform of the analytics filter leaves
  the text \<open>custcollectiontranslations123.greeting\<close> as it is, while the fetch
  transform of the workbook filter, which has no lookup, answers a reference.
\<close>

theorem workbook_fetch_reference_unverified:
  "fetchTransformFunc (VStr ''custcollectiontranslations123.greeting'') None None [] []
     (PrimitiveType STRING_elemID)
   = ([UnexpectedPath None], VStr ''custcollectiontranslations123.greeting'')
   \<and> fetchTransformFunc_workbook (VStr ''custcollectiontranslations123.greeting'') None None
       (PrimitiveType STRING_elemID)
     = ([UnexpectedPath None],
        VRef (ElemID [''netsuite'',
          ''translationcollection.instance.custcollectiontranslations123.strings.string.greeting.scriptid'']))"
  by (simp add: fetchTransformFunc_def fetchTransformFunc_workbook_def startsWith_def Let_def
      elementsSource_get_def fieldTypeOf_def NETSUITE_def)

section \<open>Placeholders for missing fields\<close>

lemma collect_all_Inr:
  "collect (map (\<lambda>k. (k, Inr (f k))) ks) acc
     = Inr (foldl (\<lambda>acc k. obj_set k (f k) acc) acc ks)"
  by (induction ks arbitrary: acc) auto

lemma map_of_foldl_obj_set:
  "map_of (foldl (\<lambda>acc k. obj_set k (f k) acc) acc ks) k
     = (if k \<in> set ks then Some (f k) else map_of acc k)"
  by (induction ks arbitrary: acc) (auto simp: map_of_obj_set)

lemma addable_iff:
  "k \<in> set (addable keyType) \<longleftrightarrow>
     (\<exists>f. map_of (type_fields keyType) k = Some f \<and> \<not> has_key DO_NOT_ADD (field_annotations f))"
  by (auto simp: addable_def split: option.splits dest: map_of_SomeD)
     (metis domI dom_map_of_conv_image_fst image_set)

lemma createEmptyObjectOfType_total:
  "map_of (type_fields fieldType) key = Some fld \<Longrightarrow>
   \<exists>v. createEmptyObjectOfType fieldType key = Inr v"
proof (induction fieldType key arbitrary: fld rule: createEmptyObjectOfType.induct)
  case (1 fieldType key)
  let ?keyType = "refType fld"
  show ?case
  proof (cases "has_key DEFAULT_VALUE (field_annotations fld) \<or> isContainerType ?keyType
      \<or> isPrimitiveType ?keyType
      \<or> (has_key XML_TYPE (type_annotations ?keyType)
          \<and> \<not> has_key IGNORE_T_VALUE (type_annotations ?keyType))")
    case True
    then show ?thesis
      using "1.prems" by (subst createEmptyObjectOfType.simps) (auto simp: Let_def)
  next
    case False
    have each: "\<exists>v. createEmptyObjectOfType ?keyType innerKey = Inr v"
      if "innerKey \<in> set (addable ?keyType)" for innerKey
    proof -
      from that obtain f where f: "map_of (type_fields ?keyType) innerKey = Some f"
        by (auto simp: addable_iff)
      show ?thesis
        using "1.IH" [OF "1.prems" _ refl _ _ _ f] False that
        by (auto simp: addable_def)
    qed
    define g where "g k = (case createEmptyObjectOfType ?keyType k of Inr v \<Rightarrow> v | Inl e \<Rightarrow> VUndef)" for k
    have eq: "map (\<lambda>innerKey. (innerKey, createEmptyObjectOfType ?keyType innerKey)) (addable ?keyType)
        = map (\<lambda>k. (k, Inr (g k))) (addable ?keyType)"
      using each by (fastforce simp: g_def)
    have "\<exists>obj. collect (map (\<lambda>innerKey. (innerKey, createEmptyObjectOfType ?keyType innerKey))
                    (addable ?keyType)) [] = Inr obj"
      unfolding eq collect_all_Inr by blast
    then show ?thesis
      using "1.prems" False
      by (subst createEmptyObjectOfType.simps) (auto simp: Let_def addable_def)
  qed
qed


lemma createEmptyObjectOfType_plain:
  assumes look: "map_of (type_fields fieldType) key = Some fld"
    and nodef: "\<not> has_key DEFAULT_VALUE (field_annotations fld)"
    and nocont: "\<not> isContainerType (refType fld)"
    and noprim: "\<not> isPrimitiveType (refType fld)"
    and nounion: "\<not> (has_key XML_TYPE (type_annotations (refType fld))
                    \<and> \<not> has_key IGNORE_T_VALUE (type_annotations (refType fld)))"
  shows "\<exists>children.
      (\<forall>innerKey. has_key innerKey children \<longleftrightarrow> innerKey \<in> set (addable (refType fld)))
      \<and> (\<forall>innerKey. has_key innerKey children \<longrightarrow>
             createEmptyObjectOfType (refType fld) innerKey = Inr (obj_get children innerKey))
      \<and> createEmptyObjectOfType fieldType key =
          Inr (if list_all (\<lambda>v. v = nullObject \<or> v = arrayObject) (map snd children)
               then nullObject else VObj children)"
proof -
  let ?keyType = "refType fld"
  define g where "g k = (case createEmptyObjectOfType ?keyType k of Inr v \<Rightarrow> v | Inl e \<Rightarrow> VUndef)" for k
  define children where "children = foldl (\<lambda>acc k. obj_set k (g k) acc) [] (addable ?keyType)"
  have each: "createEmptyObjectOfType ?keyType k = Inr (g k)" if "k \<in> set (addable ?keyType)" for k
  proof -
    from that obtain f where "map_of (type_fields ?keyType) k = Some f"
      by (auto simp: addable_iff)
    from createEmptyObjectOfType_total [OF this] show ?thesis
      by (auto simp: g_def)
  qed
  have eq: "map (\<lambda>innerKey. (innerKey, createEmptyObjectOfType ?keyType innerKey)) (addable ?keyType)
        = map (\<lambda>k. (k, Inr (g k))) (addable ?keyType)"
    using each by fastforce
  have built: "collect (map (\<lambda>innerKey. (innerKey, createEmptyObjectOfType ?keyType innerKey))
                    (addable ?keyType)) [] = Inr children"
    unfolding eq collect_all_Inr children_def by simp
  have look_children: "map_of children k = (if k \<in> set (addable ?keyType) then Some (g k) else None)" for k
    by (simp add: children_def map_of_foldl_obj_set)
  have keys: "\<forall>innerKey. has_key innerKey children \<longleftrightarrow> innerKey \<in> set (addable ?keyType)"
    by (simp add: has_key_def look_children)
  have vals: "\<forall>innerKey. has_key innerKey children \<longrightarrow>
             createEmptyObjectOfType ?keyType innerKey = Inr (obj_get children innerKey)"
    using each by (simp add: has_key_def obj_get_def look_children)
  have run: "createEmptyObjectOfType fieldType key =
          Inr (if list_all (\<lambda>v. v = nullObject \<or> v = arrayObject) (map snd children)
               then nullObject else VObj children)"
    using look nodef nocont noprim nounion built
    by (subst createEmptyObjectOfType.simps) (auto simp: Let_def addable_def)
  from keys vals run show ?thesis by blast
qed


text \<open>
  C5. For a field of an object type, \<open>createEmptyObjectOfType\<close> returns, without
  throwing: the field's \<open>DEFAULT_VALUE\<close> when it has one; otherwise the empty-array
  sentinel when the field's type is a list; otherwise the null sentinel when the type is a
  primitive or an object type annotated \<open>XML_TYPE\<close> without \<open>IGNORE_T_VALUE\<close>; and
  otherwise, for a plain object type, the mapping of each field of that type not annotated
  \<open>DO_NOT_ADD\<close> to its own placeholder, replaced by the null sentinel when every one
  of those placeholders is the null or the empty-array sentinel.
\<close>

theorem createEmptyObjectOfType_placeholder:
  assumes look: "map_of (type_fields fieldType) key = Some fld"
  shows "\<exists>placeholder.
      createEmptyObjectOfType fieldType key = Inr placeholder
      \<and> (if has_key DEFAULT_VALUE (field_annotations fld)
         then placeholder = obj_get (field_annotations fld) DEFAULT_VALUE
         else if isContainerType (refType fld) then placeholder = arrayObject
         else if isPrimitiveType (refType fld)
                 \<or> (has_key XML_TYPE (type_annotations (refType fld))
                     \<and> \<not> has_key IGNORE_T_VALUE (type_annotations (refType fld)))
         then placeholder = nullObject
         else
           (\<exists>children.
              (\<forall>innerKey. has_key innerKey children \<longleftrightarrow>
                 (\<exists>f. map_of (type_fields (refType fld)) innerKey = Some f
                      \<and> \<not> has_key DO_NOT_ADD (field_annotations f)))
              \<and> (\<forall>innerKey. has_key innerKey children \<longrightarrow>
                    createEmptyObjectOfType (refType fld) innerKey
                      = Inr (obj_get children innerKey))
              \<and> placeholder =
                  (if list_all (\<lambda>v. v = nullObject \<or> v = arrayObject) (map snd children)
                   then nullObject else VObj children)))"
proof -
  consider (default) "has_key DEFAULT_VALUE (field_annotations fld)"
    | (list) "\<not> has_key DEFAULT_VALUE (field_annotations fld)" "isContainerType (refType fld)"
    | (null) "\<not> has_key DEFAULT_VALUE (field_annotations fld)" "\<not> isContainerType (refType fld)"
        "isPrimitiveType (refType fld)
         \<or> (has_key XML_TYPE (type_annotations (refType fld))
             \<and> \<not> has_key IGNORE_T_VALUE (type_annotations (refType fld)))"
    | (plain) "\<not> has_key DEFAULT_VALUE (field_annotations fld)" "\<not> isContainerType (refType fld)"
        "\<not> isPrimitiveType (refType fld)"
        "\<not> (has_key XML_TYPE (type_annotations (refType fld))
             \<and> \<not> has_key IGNORE_T_VALUE (type_annotations (refType fld)))"
    by blast
  then show ?thesis
  proof cases
    case default
    have "createEmptyObjectOfType fieldType key
        = Inr (obj_get (field_annotations fld) DEFAULT_VALUE)"
      by (subst createEmptyObjectOfType.simps) (simp add: look default)
    with default show ?thesis by simp
  next
    case list
    have "createEmptyObjectOfType fieldType key = Inr arrayObject"
      by (subst createEmptyObjectOfType.simps) (simp add: look list)
    with list show ?thesis by simp
  next
    case null
    have "createEmptyObjectOfType fieldType key = Inr nullObject"
      by (subst createEmptyObjectOfType.simps) (simp add: look null)
    with null show ?thesis by simp
  next
    case plain
    from createEmptyObjectOfType_plain [OF look plain] obtain children where
      k: "\<forall>innerKey. has_key innerKey children \<longleftrightarrow> innerKey \<in> set (addable (refType fld))"
      and v: "\<forall>innerKey. has_key innerKey children \<longrightarrow>
             createEmptyObjectOfType (refType fld) innerKey = Inr (obj_get children innerKey)"
      and r: "createEmptyObjectOfType fieldType key =
          Inr (if list_all (\<lambda>v. v = nullObject \<or> v = arrayObject) (map snd children)
               then nullObject else VObj children)"
      by blast
    have k': "\<forall>innerKey. has_key innerKey children \<longleftrightarrow>
                 (\<exists>f. map_of (type_fields (refType fld)) innerKey = Some f
                      \<and> \<not> has_key DO_NOT_ADD (field_annotations f))"
      using k by (simp add: addable_iff)
    have conds: "has_key DEFAULT_VALUE (field_annotations fld) = False"
      "isContainerType (refType fld) = False"
      "(isPrimitiveType (refType fld)
        \<or> (has_key XML_TYPE (type_annotations (refType fld))
            \<and> \<not> has_key IGNORE_T_VALUE (type_annotations (refType fld)))) = False"
      using plain by auto
    show ?thesis
      apply (rule exI [of _ "if list_all (\<lambda>v. v = nullObject \<or> v = arrayObject)
                                 (map snd children) then nullObject else VObj children"])
      apply (rule conjI [OF r])
      apply (simp only: conds if_False)
      apply (intro exI [of _ children] conjI k' v refl)
      done
  qed
qed



theorem createEmptyObjectOfType_placeholder_witness:
  "createEmptyObjectOfType datasetOperator ''code'' = Inr (VStr ''AND'')
   \<and> (\<exists>children. createEmptyObjectOfType datasetCondition ''operator'' = Inr (VObj children)
          \<and> obj_get children ''code'' = VStr ''AND'')"
proof -
  have look: "map_of (type_fields datasetOperator) ''code''
      = Some (Field BuiltinTypes_STRING [(''DEFAULT_VALUE'', VStr ''AND'')])"
    by (simp add: datasetOperator_def)
  from createEmptyObjectOfType_placeholder [OF look]
  have code: "createEmptyObjectOfType datasetOperator ''code'' = Inr (VStr ''AND'')"
    by (auto simp: has_key_def obj_get_def DEFAULT_VALUE_def)
  have look': "map_of (type_fields datasetCondition) ''operator'' = Some (Field datasetOperator [])"
    by (simp add: datasetCondition_def)
  have plain: "\<not> has_key DEFAULT_VALUE (field_annotations (Field datasetOperator []))"
    "\<not> isContainerType (refType (Field datasetOperator []))"
    "\<not> (isPrimitiveType (refType (Field datasetOperator []))
        \<or> (has_key XML_TYPE (type_annotations (refType (Field datasetOperator [])))
            \<and> \<not> has_key IGNORE_T_VALUE
                  (type_annotations (refType (Field datasetOperator [])))))"
    by (simp_all add: has_key_def datasetOperator_def)
  from createEmptyObjectOfType_placeholder [OF look'] plain
  obtain children where
    keys: "\<forall>innerKey. has_key innerKey children \<longleftrightarrow>
             (\<exists>f. map_of (type_fields (refType (Field datasetOperator []))) innerKey = Some f
                  \<and> \<not> has_key DO_NOT_ADD (field_annotations f))"
    and vals: "\<forall>innerKey. has_key innerKey children \<longrightarrow>
             createEmptyObjectOfType (refType (Field datasetOperator [])) innerKey
               = Inr (obj_get children innerKey)"
    and run: "createEmptyObjectOfType datasetCondition ''operator'' =
          Inr (if list_all (\<lambda>v. v = nullObject \<or> v = arrayObject) (map snd children)
               then nullObject else VObj children)"
    by auto
  have present: "has_key ''code'' children"
    using keys by (simp add: datasetOperator_def has_key_def DO_NOT_ADD_def)
  with vals code have held: "obj_get children ''code'' = VStr ''AND''"
    by auto
  from present held have "(''code'', VStr ''AND'') \<in> set children"
    by (auto simp: has_key_def obj_get_def dest: map_of_SomeD split: option.splits)
  then have "VStr ''AND'' \<in> set (map snd children)"
    by force
  moreover have "VStr ''AND'' \<noteq> nullObject" "VStr ''AND'' \<noteq> arrayObject"
    by (simp_all add: nullObject_def arrayObject_def)
  ultimately have "\<not> list_all (\<lambda>v. v = nullObject \<or> v = arrayObject) (map snd children)"
    unfolding list_all_iff by blast
  with run held code show ?thesis
    by auto
qed

text \<open>
  The formula of a dataset: every field of its body gets a null sentinel, the label being
  a translation whose only field does, so the body collapses although its type is
  annotated \<open>IGNORE_T_VALUE\<close>.
\<close>

lemma dataset_type_facts:
  "type_fields datasetTranslation = [(''translationScriptId'', Field BuiltinTypes_STRING [])]"
  "type_annotations datasetTranslation = []"
  "isContainerType datasetTranslation = False"
  "isPrimitiveType datasetTranslation = False"
  "type_fields datasetFormulaFormula =
     [(''dataType'', Field BuiltinTypes_STRING []),
      (''formulaSQL'', Field BuiltinTypes_STRING []),
      (''id'', Field BuiltinTypes_STRING []),
      (''label'', Field datasetTranslation []),
      (''uniqueId'', Field BuiltinTypes_STRING [])]"
  "type_annotations datasetFormulaFormula
     = [(''XML_TYPE'', VStr ''formula''), (''IGNORE_T_VALUE'', VBool True)]"
  "isContainerType datasetFormulaFormula = False"
  "isPrimitiveType datasetFormulaFormula = False"
  "type_fields datasetFormula =
     [(''fields'', Field (ContainerType (ElemID [''netsuite'', ''dataset_fieldOrFormula''])) []),
      (''formula'', Field datasetFormulaFormula [])]"
  "isPrimitiveType BuiltinTypes_STRING = True"
  "isContainerType BuiltinTypes_STRING = False"
  by (simp_all add: datasetTranslation_def datasetFormulaFormula_def datasetFormula_def
      BuiltinTypes_STRING_def)

lemmas annotation_names =
  has_key_def DEFAULT_VALUE_def XML_TYPE_def IGNORE_T_VALUE_def DO_NOT_ADD_def

lemma translation_placeholder:
  "createEmptyObjectOfType datasetTranslation ''translationScriptId'' = Inr nullObject"
  by (subst createEmptyObjectOfType.simps) (simp add: dataset_type_facts annotation_names)

lemma formula_body_placeholders:
  "createEmptyObjectOfType datasetFormulaFormula ''dataType'' = Inr nullObject"
  "createEmptyObjectOfType datasetFormulaFormula ''formulaSQL'' = Inr nullObject"
  "createEmptyObjectOfType datasetFormulaFormula ''id'' = Inr nullObject"
  "createEmptyObjectOfType datasetFormulaFormula ''uniqueId'' = Inr nullObject"
  by (subst createEmptyObjectOfType.simps, simp add: dataset_type_facts annotation_names)+

lemma formula_label_placeholder:
  "createEmptyObjectOfType datasetFormulaFormula ''label'' = Inr nullObject"
  by (subst createEmptyObjectOfType.simps)
     (simp add: dataset_type_facts annotation_names translation_placeholder obj_set_def
        is_array_index_def is_digit_def)

lemma formula_placeholder_collapses:
  "createEmptyObjectOfType datasetFormula ''formula'' = Inr nullObject"
  by (subst createEmptyObjectOfType.simps)
     (simp add: dataset_type_facts annotation_names formula_body_placeholders
        formula_label_placeholder obj_set_def is_array_index_def is_digit_def)

section \<open>Field completion\<close>

lemma grows_refl: "grows K s s"
  by (simp add: grows_def)

lemma grows_trans: "grows K s s' \<Longrightarrow> grows K s' s'' \<Longrightarrow> grows K s s''"
  unfolding grows_def by (meson map_le_trans subset_trans Un_least Un_upper1 Un_upper2 le_supI1) 

lemma grows_set: "\<not> has_key k s \<Longrightarrow> k \<in> K \<Longrightarrow> grows K s (obj_set k v s)"
  by (auto simp: grows_def map_of_obj_set map_le_def has_key_def)

lemma forEach_grows:
  assumes "\<And>x s. x \<in> set xs \<Longrightarrow> \<exists>s'. step x s = Inr s' \<and> grows K s s'"
  shows "\<exists>s'. forEach xs step s = Inr s' \<and> grows K s s'"
  using assms
proof (induction xs arbitrary: s)
  case Nil
  then show ?case by (simp add: grows_refl)
next
  case (Cons x xs)
  from Cons.prems [of x s] obtain s1 where s1: "step x s = Inr s1" "grows K s s1"
    by auto
  from Cons.IH [of s1] Cons.prems obtain s2 where s2: "forEach xs step s1 = Inr s2" "grows K s1 s2"
    by auto
  from s1 s2 show ?case
    by (auto intro: grows_trans)
qed


lemma deployTransformFunc_other:
  "\<not> (\<exists>e a fs obj. fieldTypeOf path field analyticsType = Some (ObjectType e a fs)
         \<and> value = VObj obj \<and> \<not> has_key TYPE_attr obj)
   \<Longrightarrow> deployTransformFunc value field path analyticsType = Inr value"
  by (auto simp: deployTransformFunc_def Let_def split: option.splits typeElem.splits val.splits)

lemma deployTransformFunc_mark:
  assumes "fieldTypeOf path field analyticsType = Some (ObjectType e a fs)"
    and "\<not> has_key TYPE_attr obj" and "has_key XML_TYPE a" and "length (obj_keys obj) = 1"
  shows "deployTransformFunc (VObj obj) field path analyticsType
     = Inr (VObj (obj_set T (VStr (obj_keys obj ! 0)) obj))"
  using assms by (simp add: deployTransformFunc_def)

lemma deployTransformFunc_complete:
  assumes ft: "fieldTypeOf path field analyticsType = Some (ObjectType e a fs)"
    and nt: "\<not> has_key TYPE_attr obj"
    and nm: "\<not> (has_key XML_TYPE a \<and> length (obj_keys obj) = 1)"
  shows "\<exists>r. deployTransformFunc (VObj obj) field path analyticsType = Inr (VObj r)
           \<and> grows (set (map fst fs)) obj r"
proof -
  let ?step = "\<lambda>key obj.
      if has_key key obj then Inr obj
      else
        (case map_of fs key of
           None \<Rightarrow> Inl TypeError
         | Some f \<Rightarrow>
             if obj_get (field_annotations f) DO_NOT_ADD = VBool True
             then Inr obj
             else if has_key DEFAULT_VALUE (field_annotations f)
             then Inr (obj_set key (obj_get (field_annotations f) DEFAULT_VALUE) obj)
             else
               (case createEmptyObjectOfType (ObjectType e a fs) key of
                  Inl err \<Rightarrow> Inl err
                | Inr v \<Rightarrow> Inr (obj_set key v obj)))"
  have each: "\<exists>s'. ?step key s = Inr s' \<and> grows (set (map fst fs)) s s'"
    if "key \<in> set (map fst fs)" for key s
  proof -
    from that obtain f where f: "map_of fs key = Some f"
      by (metis domD dom_map_of_conv_image_fst image_set)
    then have "map_of (type_fields (ObjectType e a fs)) key = Some f"
      by simp
    from createEmptyObjectOfType_total [OF this]
    obtain v where v: "createEmptyObjectOfType (ObjectType e a fs) key = Inr v"
      by blast
    show ?thesis
      using f v that by (auto simp: grows_refl intro!: grows_set)
  qed
  from forEach_grows [of "map fst fs" ?step "set (map fst fs)" obj, OF each]
  obtain r where r: "forEach (map fst fs) ?step obj = Inr r" "grows (set (map fst fs)) obj r"
    by blast
  have "deployTransformFunc (VObj obj) field path analyticsType = Inr (VObj r)"
    using ft nt nm r(1) by (auto simp: deployTransformFunc_def)
  with r(2) show ?thesis by blast
qed


text \<open>
  The frame of \<open>deployTransformFunc\<close> on any mapping: it returns a mapping, without
  throwing, that has every field of the input. Every field of the input keeps its value,
  unless the type is an object type annotated \<open>XML_TYPE\<close> and the only field of the
  input is \<open>_T_\<close> itself. A field of the result that the input did not have is \<open>_T_\<close>
  or a field of the type.
\<close>

lemma deployTransformFunc_frame:
  "\<exists>r. deployTransformFunc (VObj obj) field path analyticsType = Inr (VObj r)
       \<and> (\<forall>k. has_key k obj \<longrightarrow> has_key k r)
       \<and> (\<forall>k. has_key k obj
              \<and> \<not> (is_tagged_union (fieldTypeOf path field analyticsType)
                     \<and> obj_keys obj = [T])
              \<longrightarrow> obj_get r k = obj_get obj k)
       \<and> (\<forall>k. has_key k r \<and> \<not> has_key k obj \<longrightarrow>
              k = T \<or> (\<exists>t. fieldTypeOf path field analyticsType = Some t
                           \<and> k \<in> set (map fst (type_fields t))))"
proof -
  consider (other) "\<not> (\<exists>e a fs. fieldTypeOf path field analyticsType = Some (ObjectType e a fs)
                         \<and> \<not> has_key TYPE_attr obj)"
    | (mark) e a fs where "fieldTypeOf path field analyticsType = Some (ObjectType e a fs)"
        "\<not> has_key TYPE_attr obj" "has_key XML_TYPE a" "length (obj_keys obj) = 1"
    | (complete) e a fs where "fieldTypeOf path field analyticsType = Some (ObjectType e a fs)"
        "\<not> has_key TYPE_attr obj" "\<not> (has_key XML_TYPE a \<and> length (obj_keys obj) = 1)"
    by blast
  then show ?thesis
  proof cases
    case other
    then have "deployTransformFunc (VObj obj) field path analyticsType = Inr (VObj obj)"
      by (intro deployTransformFunc_other) auto
    then show ?thesis by auto
  next
    case mark
    let ?r = "obj_set T (VStr (obj_keys obj ! 0)) obj"
    have run: "deployTransformFunc (VObj obj) field path analyticsType = Inr (VObj ?r)"
      using mark by (rule deployTransformFunc_mark)
    have look: "map_of ?r = (map_of obj)(T \<mapsto> VStr (obj_keys obj ! 0))"
      by (rule map_of_obj_set)
    have single: "has_key T obj \<Longrightarrow> obj_keys obj = [T]"
      using mark(4) by (cases obj) (auto simp: obj_keys_def has_key_def split: if_splits)
    have union: "is_tagged_union (fieldTypeOf path field analyticsType)"
      using mark(1,3) by (simp add: is_tagged_union_def)
    have keep: "\<forall>k. has_key k obj \<longrightarrow> has_key k ?r"
      by (simp add: has_key_def look)
    have same: "\<forall>k. has_key k obj
              \<and> \<not> (is_tagged_union (fieldTypeOf path field analyticsType)
                     \<and> obj_keys obj = [T])
              \<longrightarrow> obj_get ?r k = obj_get obj k"
      using single union by (auto simp: obj_get_def look)
    have new: "\<forall>k. has_key k ?r \<and> \<not> has_key k obj \<longrightarrow> k = T"
      by (auto simp: has_key_def look split: if_splits)
    from run keep same new show ?thesis by blast
  next
    case complete
    from deployTransformFunc_complete [OF complete] obtain r where
      run: "deployTransformFunc (VObj obj) field path analyticsType = Inr (VObj r)"
      and g: "grows (set (map fst fs)) obj r"
      by blast
    have keep: "\<forall>k. has_key k obj \<longrightarrow> has_key k r"
      using g by (auto simp: grows_def has_key_def map_le_def dom_def)
    have same: "\<forall>k. has_key k obj \<longrightarrow> obj_get r k = obj_get obj k"
      using g by (auto simp: grows_def has_key_def obj_get_def map_le_def dom_def)
    have new: "\<forall>k. has_key k r \<and> \<not> has_key k obj \<longrightarrow> k \<in> set (map fst fs)"
      using g by (auto simp: grows_def has_key_def dom_def)
    from run keep same new complete(1) show ?thesis
      by (intro exI [of _ r]) auto
  qed
qed

text \<open>
  A canonical mapping carries no discriminator: \<open>fetchTransformFunc\<close> answers a mapping
  without the field \<open>_T_\<close> for every raw mapping that is no sentinel wrapper, unless the
  discriminator of the raw mapping is the name \<open>_T_\<close> itself.
\<close>

lemma fetch_omits_discriminator:
  assumes "\<not> has_key TYPE_attr obj" and "js_String (obj_get obj T) \<noteq> T"
    and "fetchTransformFunc (VObj obj) field path elementsSource elements type = (logged, VObj r)"
  shows "\<not> has_key T r"
proof -
  have gone: "\<not> has_key T (omit obj T)"
    by (simp add: has_key_def map_of_omit)
  have named: "\<not> has_key T (spread [(''xmlType'', x)] (VObj (omit obj T)))" for x
    using gone by (simp add: spread_def own_entries_def has_key_def map_of_assign T_def
        map_of_eq_None_iff)
  show ?thesis
    using assms gone named
    by (auto simp: fetchTransformFunc_def Let_def has_key_def split: if_splits)
qed

text \<open>
  C4. On a canonical mapping, one without the discriminator \<open>_T_\<close>, at any schema node
  \<open>deployTransformFunc\<close> returns a mapping, without throwing, in which every field of the
  input is present with the value it had. A field of the result that the input did not
  have is \<open>_T_\<close> or a field of the type. A value that is not a mapping is returned as it
  is.
\<close>

theorem deployTransformFunc_additive:
  "(\<not> has_key T obj \<longrightarrow>
      (\<exists>r. deployTransformFunc (VObj obj) field path analyticsType = Inr (VObj r)
         \<and> (\<forall>k. has_key k obj \<longrightarrow> has_key k r \<and> obj_get r k = obj_get obj k)
         \<and> (\<forall>k. has_key k r \<and> \<not> has_key k obj \<longrightarrow>
                k = T \<or> (\<exists>t. fieldTypeOf path field analyticsType = Some t
                             \<and> k \<in> set (map fst (type_fields t))))))
   \<and> ((\<forall>obj'. value \<noteq> VObj obj') \<longrightarrow>
        deployTransformFunc value field path analyticsType = Inr value)"
proof (intro conjI impI)
  assume canonical: "\<not> has_key T obj"
  then have keys: "obj_keys obj \<noteq> [T]"
    by (auto simp: has_key_iff obj_keys_def)
  from deployTransformFunc_frame [of obj field path analyticsType] obtain r where
    run: "deployTransformFunc (VObj obj) field path analyticsType = Inr (VObj r)"
    and keep: "\<forall>k. has_key k obj \<longrightarrow> has_key k r"
    and same: "\<forall>k. has_key k obj
              \<and> \<not> (is_tagged_union (fieldTypeOf path field analyticsType)
                     \<and> obj_keys obj = [T])
              \<longrightarrow> obj_get r k = obj_get obj k"
    and new: "\<forall>k. has_key k r \<and> \<not> has_key k obj \<longrightarrow>
              k = T \<or> (\<exists>t. fieldTypeOf path field analyticsType = Some t
                           \<and> k \<in> set (map fst (type_fields t)))"
    by blast
  from keep same keys
  have "\<forall>k. has_key k obj \<longrightarrow> has_key k r \<and> obj_get r k = obj_get obj k"
    by blast
  with run new
  show "\<exists>r. deployTransformFunc (VObj obj) field path analyticsType = Inr (VObj r)
         \<and> (\<forall>k. has_key k obj \<longrightarrow> has_key k r \<and> obj_get r k = obj_get obj k)
         \<and> (\<forall>k. has_key k r \<and> \<not> has_key k obj \<longrightarrow>
                k = T \<or> (\<exists>t. fieldTypeOf path field analyticsType = Some t
                             \<and> k \<in> set (map fst (type_fields t))))"
    by blast
next
  assume "\<forall>obj'. value \<noteq> VObj obj'"
  then show "deployTransformFunc value field path analyticsType = Inr value"
    by (auto intro: deployTransformFunc_other)
qed

theorem deployTransformFunc_additive_witness:
  "(\<exists>r. deployTransformFunc (VObj [(''formula'', VObj [(''id'', VStr ''f1'')])])
          (Some (Field datasetFormula [])) None datasetFormula = Inr (VObj r)
       \<and> has_key ''formula'' r
       \<and> obj_get r ''formula'' = VObj [(''id'', VStr ''f1'')])
   \<and> deployTransformFunc (VStr ''f1'') (Some (Field datasetFormula [])) None datasetFormula
       = Inr (VStr ''f1'')"
proof -
  define obj where "obj = [(''formula'', VObj [(''id'', VStr ''f1'')])]"
  have canonical: "\<not> has_key T obj"
    by (simp add: obj_def has_key_def T_def)
  have present: "has_key ''formula'' obj"
    by (simp add: obj_def has_key_def)
  have held: "obj_get obj ''formula'' = VObj [(''id'', VStr ''f1'')]"
    by (simp add: obj_def obj_get_def)
  have other: "\<forall>obj'. VStr ''f1'' \<noteq> VObj obj'"
    by simp
  note inst = deployTransformFunc_additive
    [of obj "Some (Field datasetFormula [])" None datasetFormula "VStr ''f1''"]
  from inst canonical obtain r where
    run: "deployTransformFunc (VObj obj) (Some (Field datasetFormula [])) None datasetFormula
            = Inr (VObj r)"
    and keep: "\<forall>k. has_key k obj \<longrightarrow> has_key k r \<and> obj_get r k = obj_get obj k"
    by blast
  from keep present held have "has_key ''formula'' r \<and> obj_get r ''formula'' = VObj [(''id'', VStr ''f1'')]"
    by simp
  with run have one: "\<exists>r. deployTransformFunc (VObj obj)
          (Some (Field datasetFormula [])) None datasetFormula = Inr (VObj r)
       \<and> has_key ''formula'' r
       \<and> obj_get r ''formula'' = VObj [(''id'', VStr ''f1'')]"
    by blast
  from inst other
  have two: "deployTransformFunc (VStr ''f1'') (Some (Field datasetFormula [])) None
      datasetFormula = Inr (VStr ''f1'')"
    by blast
  from one two show ?thesis
    unfolding obj_def by blast
qed

text \<open>
  The condition on the discriminator is needed. The marking of a tagged union,
  \<open>value[T] = Object.keys(value)[0]\<close>, does not test whether \<open>_T_\<close> is there already: on a
  mapping whose only field is \<open>_T_\<close> it replaces the value of that field by the name
  \<open>_T_\<close>.
\<close>

lemma deployTransformFunc_lone_discriminator:
  "deployTransformFunc (VObj [(''_T_'', VStr ''fieldReference'')])
     (Some (Field datasetFieldOrFormula [])) None datasetFormula
   = Inr (VObj [(''_T_'', VStr ''_T_'')])"
  by (simp add: deployTransformFunc_def fieldTypeOf_def datasetFieldOrFormula_def has_key_def
      TYPE_attr_def XML_TYPE_def T_def obj_keys_def obj_set_def)

section \<open>Tagged unions\<close>

lemma not_index_T: "\<not> is_array_index T"
  by (simp add: is_array_index_def T_def is_digit_def)

lemma fetch_tagged:
  assumes "has_key T obj" and "\<not> is_sentinel obj"
    and "is_tagged_union (fieldTypeOf path field type)"
  shows "snd (fetchTransformFunc (VObj obj) field path elementsSource elements type) =
     (if set_has TValuesToIgnore (obj_get obj T) then VObj (omit obj T)
      else VObj [(js_String (obj_get obj T), VObj (omit obj T))])"
  using assms
  by (auto simp: fetchTransformFunc_def is_sentinel_def TYPE_attr_def Let_def)

lemma checkT_formula:
  assumes "distinct (map fst fields)"
    and "list_all (\<lambda>k. \<not> is_array_index k \<and> k \<noteq> T) (map fst fields)"
  shows "checkT (KStr ''formula'') (VObj [(''formula'', VObj fields)])
     = Inr (VObj ((T, VStr ''formula'') # fields))"
proof -
  have "list_all (\<lambda>k. \<not> is_array_index k \<and> \<not> has_key k [(T, VStr ''formula'')]) (map fst fields)"
    using assms(2) by (auto simp: list_all_iff has_key_def)
  from assign_plain [OF assms(1) this] show ?thesis
    by (simp add: checkT_def js_get_obj obj_get_def keysToAddT_def spread_def own_entries_def)
qed

lemma checkT_marked:
  assumes "distinct (map fst fields)"
    and "list_all (\<lambda>k. \<not> is_array_index k \<and> k \<noteq> T) (map fst fields)"
    and "tag \<noteq> T" and "tag \<noteq> ''xmlType''" and "k \<notin> set keysToAddT"
  shows "checkT (KStr k) (VObj [(k, VObj [(tag, VObj fields), (T, VStr tag)])])
     = Inr (VObj ((T, VStr tag) # fields))"
proof -
  have "list_all (\<lambda>k. \<not> is_array_index k \<and> \<not> has_key k [(T, VStr tag)]) (map fst fields)"
    using assms(2) by (auto simp: list_all_iff has_key_def)
  from assign_plain [OF assms(1) this]
  have flat: "spread [(T, VStr tag)] (VObj fields) = (T, VStr tag) # fields"
    by (simp add: spread_def own_entries_def)
  have T_ne: "T \<noteq> ''xmlType''"
    by (simp add: T_def)
  show ?thesis
    using assms(3-5) T_ne flat
    by (simp add: checkT_def js_get_obj obj_get_def obj_keys_def)
qed

text \<open>
  C3, as the code has it. Take a tag that is not in the ignore set
  \<open>{workbook, dataSet, formula}\<close> and is none of \<open>_T_\<close>, \<open>@_type\<close> and
  \<open>xmlType\<close>, a variant whose fields have distinct names, none of them an array index,
  \<open>_T_\<close> or \<open>@_type\<close>, and a position whose type is an object type annotated
  \<open>XML_TYPE\<close>. Field completion marks the single-field mapping \<open>{tag: fields}\<close> with
  \<open>_T_ = tag\<close>; \<open>checkT\<close>, at a parent key other than \<open>formula\<close>, collapses the
  marked mapping into \<open>{_T_: tag, ...fields}\<close>; and the fetch transform expands that
  into \<open>{tag: fields}\<close> again. At the key \<open>formula\<close>, \<open>checkT\<close> puts
  \<open>_T_ = formula\<close> in front of the fields. For every tag of the ignore set the fetch
  transform drops \<open>_T_\<close> and answers the fields, not nested.
\<close>

theorem tagged_union_collapse_expand:
  assumes tag: "tag \<notin> set TValuesToIgnore" "tag \<noteq> T" "tag \<noteq> TYPE_attr" "tag \<noteq> ''xmlType''"
    and wf: "distinct (map fst fields)"
      "list_all (\<lambda>k. \<not> is_array_index k \<and> k \<noteq> T \<and> k \<noteq> TYPE_attr) (map fst fields)"
    and node: "fieldTypeOf path field type = Some (ObjectType e a fs)" "has_key XML_TYPE a"
    and parent: "k \<notin> set keysToAddT"
  shows "deployTransformFunc (VObj [(tag, VObj fields)]) field path type
           = Inr (VObj [(tag, VObj fields), (T, VStr tag)])
       \<and> checkT (KStr k) (VObj [(k, VObj [(tag, VObj fields), (T, VStr tag)])])
           = Inr (VObj ((T, VStr tag) # fields))
       \<and> snd (fetchTransformFunc (VObj ((T, VStr tag) # fields)) field path elementsSource
                elements type)
           = VObj [(tag, VObj fields)]
       \<and> checkT (KStr ''formula'') (VObj [(''formula'', VObj fields)])
           = Inr (VObj ((T, VStr ''formula'') # fields))
       \<and> (\<forall>ignored \<in> set TValuesToIgnore.
             snd (fetchTransformFunc (VObj ((T, VStr ignored) # fields)) field path
                    elementsSource elements type)
             = VObj fields)"
proof -
  have wf': "list_all (\<lambda>k. \<not> is_array_index k \<and> k \<noteq> T) (map fst fields)"
    using wf(2) by (auto simp: list_all_iff)
  have noT: "T \<notin> fst ` set fields" and noTYPE: "TYPE_attr \<notin> fst ` set fields"
    using wf(2) by (auto simp: list_all_iff)
  have mark: "deployTransformFunc (VObj [(tag, VObj fields)]) field path type
           = Inr (VObj [(tag, VObj fields), (T, VStr tag)])"
    using tag(2,3) node not_index_T
    by (simp add: deployTransformFunc_def has_key_def obj_keys_def obj_set_def)
  have collapse: "checkT (KStr k) (VObj [(k, VObj [(tag, VObj fields), (T, VStr tag)])])
           = Inr (VObj ((T, VStr tag) # fields))"
    using wf(1) wf' tag(2,4) parent by (rule checkT_marked)
  have hasT: "has_key T ((T, VStr tag) # fields)"
    by (simp add: has_key_def)
  have plain: "\<not> is_sentinel ((T, VStr tag) # fields)"
    using noTYPE by (simp add: is_sentinel_def has_key_iff TYPE_attr_def T_def)
  have union: "is_tagged_union (fieldTypeOf path field type)"
    using node by (simp add: is_tagged_union_def)
  have "snd (fetchTransformFunc (VObj ((T, VStr tag) # fields)) field path elementsSource
                elements type)
           = VObj [(tag, VObj (omit ((T, VStr tag) # fields) T))]"
    using tag(1) by (simp add: fetch_tagged [OF hasT plain union] obj_get_def set_has_def)
  also have "omit ((T, VStr tag) # fields) T = fields"
    using noT by (simp add: omit_def)
  finally have expand: "snd (fetchTransformFunc (VObj ((T, VStr tag) # fields)) field path
                elementsSource elements type)
           = VObj [(tag, VObj fields)]" .
  have formula: "checkT (KStr ''formula'') (VObj [(''formula'', VObj fields)])
           = Inr (VObj ((T, VStr ''formula'') # fields))"
    using wf(1) wf' by (rule checkT_formula)
  have dropped: "snd (fetchTransformFunc (VObj ((T, VStr ignored) # fields)) field path
                    elementsSource elements type) = VObj fields"
    if "ignored \<in> set TValuesToIgnore" for ignored
  proof -
    have "has_key T ((T, VStr ignored) # fields)"
      by (simp add: has_key_def)
    moreover have "\<not> is_sentinel ((T, VStr ignored) # fields)"
      using noTYPE by (simp add: is_sentinel_def has_key_iff TYPE_attr_def T_def)
    ultimately have "snd (fetchTransformFunc (VObj ((T, VStr ignored) # fields)) field path
                    elementsSource elements type)
        = VObj (omit ((T, VStr ignored) # fields) T)"
      using that union by (simp add: fetch_tagged obj_get_def set_has_def)
    also have "omit ((T, VStr ignored) # fields) T = fields"
      using noT by (simp add: omit_def)
    finally show ?thesis .
  qed
  from mark collapse expand formula dropped show ?thesis
    by blast
qed

theorem tagged_union_collapse_expand_witness:
  "deployTransformFunc (VObj [(''fieldReference'', VObj [(''id'', VStr ''x'')])])
     (Some (Field datasetFieldOrFormula [])) None datasetFormula
     = Inr (VObj [(''fieldReference'', VObj [(''id'', VStr ''x'')]),
                  (''_T_'', VStr ''fieldReference'')])
   \<and> checkT (KStr ''field'')
       (VObj [(''field'', VObj [(''fieldReference'', VObj [(''id'', VStr ''x'')]),
                                (''_T_'', VStr ''fieldReference'')])])
     = Inr (VObj [(''_T_'', VStr ''fieldReference''), (''id'', VStr ''x'')])
   \<and> snd (fetchTransformFunc (VObj [(''_T_'', VStr ''fieldReference''), (''id'', VStr ''x'')])
            (Some (Field datasetFieldOrFormula [])) None [] [] datasetFormula)
     = VObj [(''fieldReference'', VObj [(''id'', VStr ''x'')])]"
proof -
  have tag: "''fieldReference'' \<notin> set TValuesToIgnore" "''fieldReference'' \<noteq> T"
    "''fieldReference'' \<noteq> TYPE_attr" "''fieldReference'' \<noteq> ''xmlType''"
    by (simp_all add: TValuesToIgnore_def T_def TYPE_attr_def)
  have wf: "distinct (map fst [(''id'', VStr ''x'')])"
    "list_all (\<lambda>k. \<not> is_array_index k \<and> k \<noteq> T \<and> k \<noteq> TYPE_attr) (map fst [(''id'', VStr ''x'')])"
    by (simp_all add: is_array_index_def is_digit_def T_def TYPE_attr_def)
  have node: "fieldTypeOf None (Some (Field datasetFieldOrFormula [])) datasetFormula
      = Some (ObjectType (ElemID [''netsuite'', ''dataset_fieldOrFormula''])
          [(''XML_TYPE'', VBool True)]
          [(''fieldReference'', Field datasetFieldReference [(''DO_NOT_ADD'', VBool True)]),
           (''dataSetFormula'', Field datasetFormula [(''DO_NOT_ADD'', VBool True)])])"
    "has_key XML_TYPE [(''XML_TYPE'', VBool True)]"
    by (simp_all add: fieldTypeOf_def datasetFieldOrFormula_def has_key_def XML_TYPE_def)
  have parent: "''field'' \<notin> set keysToAddT"
    by (simp add: keysToAddT_def)
  from tagged_union_collapse_expand [OF tag wf node parent, of "[]" "[]"]
  show ?thesis
    by (simp add: T_def)
qed

text \<open>
  C3 as stated fails at its own example: \<open>formula\<close> is in the ignore set, so the
  collapsed \<open>{_T_: formula, field1: x}\<close> is expanded into \<open>{field1: x}\<close>, not nested
  under \<open>formula\<close>. And \<open>checkT\<close> alone leaves a single-field mapping that has not
  been marked with \<open>_T_\<close> as it is.
\<close>

theorem formula_tag_not_nested:
  "''formula'' \<in> set TValuesToIgnore
   \<and> checkT (KStr ''formula'') (VObj [(''formula'', VObj [(''field1'', VStr ''x'')])])
     = Inr (VObj [(''_T_'', VStr ''formula''), (''field1'', VStr ''x'')])
   \<and> snd (fetchTransformFunc (VObj [(''_T_'', VStr ''formula''), (''field1'', VStr ''x'')])
            (Some (Field datasetFormulaFormula [])) None [] [] datasetFormula)
     = VObj [(''field1'', VStr ''x'')]
   \<and> checkT (KStr ''field'')
       (VObj [(''field'', VObj [(''fieldReference'', VObj [(''id'', VStr ''x'')])])])
     = Inr (VObj [(''fieldReference'', VObj [(''id'', VStr ''x'')])])"
proof -
  have one: "''formula'' \<in> set TValuesToIgnore"
    by (simp add: TValuesToIgnore_def)
  have two: "checkT (KStr ''formula'') (VObj [(''formula'', VObj [(''field1'', VStr ''x'')])])
     = Inr (VObj [(T, VStr ''formula''), (''field1'', VStr ''x'')])"
    by (rule checkT_formula) (simp_all add: is_array_index_def is_digit_def T_def)
  have three: "snd (fetchTransformFunc (VObj [(T, VStr ''formula''), (''field1'', VStr ''x'')])
            (Some (Field datasetFormulaFormula [])) None [] [] datasetFormula)
     = VObj [(''field1'', VStr ''x'')]"
    by (subst fetch_tagged)
       (simp_all add: has_key_def is_sentinel_def is_tagged_union_def fieldTypeOf_def
          datasetFormulaFormula_def XML_TYPE_def T_def obj_get_def set_has_def
          TValuesToIgnore_def omit_def)
  have four: "checkT (KStr ''field'')
       (VObj [(''field'', VObj [(''fieldReference'', VObj [(''id'', VStr ''x'')])])])
     = Inr (VObj [(''fieldReference'', VObj [(''id'', VStr ''x'')])])"
    by (simp add: checkT_def js_get_obj obj_get_def keysToAddT_def obj_keys_def)
  from one two three four show ?thesis
    by (simp add: T_def)
qed

section \<open>The wire shape of sequences, booleans and numeric strings\<close>





















section \<open>Properties of the workbook change validator\<close>

text \<open>
  C10. \<open>checkWorkbookValidity\<close> holds of an instance exactly when its value has none of
  the keys \<open>charts\<close>, \<open>pivots\<close> and \<open>datasetLinks\<close>. The validator answers, in the order
  of the changes, one error of severity \<open>Warning\<close> for each instance change of type
  \<open>workbook\<close> whose value has one of these keys, and nothing for any other change; no
  error it answers has another severity.
\<close>

theorem workbook_validator_warns:
  "(checkWorkbookValidity inst \<longleftrightarrow>
      \<not> has_key ''charts'' (inst_value inst) \<and> \<not> has_key ''pivots'' (inst_value inst)
      \<and> \<not> has_key ''datasetLinks'' (inst_value inst))
   \<and> changeValidator isInstanceChange getChangeData changes =
       concat (map (\<lambda>c.
         if isInstanceChange c \<and> typeName (inst_elemID (getChangeData c)) = ''workbook''
            \<and> (has_key ''charts'' (inst_value (getChangeData c))
                \<or> has_key ''pivots'' (inst_value (getChangeData c))
                \<or> has_key ''datasetLinks'' (inst_value (getChangeData c)))
         then [ChangeError (inst_elemID (getChangeData c)) Warning workbook_message workbook_detail]
         else []) changes)
   \<and> list_all (\<lambda>e. error_severity e = Warning)
        (changeValidator isInstanceChange getChangeData changes)"
proof -
  have valid: "checkWorkbookValidity i \<longleftrightarrow>
      \<not> has_key ''charts'' (inst_value i) \<and> \<not> has_key ''pivots'' (inst_value i)
      \<and> \<not> has_key ''datasetLinks'' (inst_value i)" for i
    by (simp add: checkWorkbookValidity_def unsupportedAttributes_def)
  have emitted: "changeValidator isInstanceChange getChangeData cs =
       concat (map (\<lambda>c.
         if isInstanceChange c \<and> typeName (inst_elemID (getChangeData c)) = ''workbook''
            \<and> (has_key ''charts'' (inst_value (getChangeData c))
                \<or> has_key ''pivots'' (inst_value (getChangeData c))
                \<or> has_key ''datasetLinks'' (inst_value (getChangeData c)))
         then [ChangeError (inst_elemID (getChangeData c)) Warning workbook_message workbook_detail]
         else []) cs)" for cs
    by (induction cs) (auto simp: changeValidator_def valid WORKBOOK_def)
  have sev: "list_all (\<lambda>e. error_severity e = Warning)
        (changeValidator isInstanceChange getChangeData changes)"
    by (simp add: changeValidator_def list_all_iff)
  from valid emitted sev show ?thesis by blast
qed

text \<open>
  Three changes, each a pair of the instance-change flag and the changed instance: a
  workbook with pivots, a workbook without unsupported keys, and a dataset with pivots.
  Only the first draws a warning.
\<close>

theorem workbook_validator_warns_witness:
  "changeValidator fst snd
     [(True, InstanceElement (ElemID [''netsuite'', ''workbook'', ''instance'', ''w1''])
               [(''pivots'', VArr [])]),
      (True, InstanceElement (ElemID [''netsuite'', ''workbook'', ''instance'', ''w2''])
               [(''name'', VStr ''x'')]),
      (True, InstanceElement (ElemID [''netsuite'', ''dataset'', ''instance'', ''d1''])
               [(''pivots'', VArr [])])]
   = [ChangeError (ElemID [''netsuite'', ''workbook'', ''instance'', ''w1'']) Warning
        workbook_message workbook_detail]"
  using workbook_validator_warns
    [of "InstanceElement (ElemID []) []" fst snd
       "[(True, InstanceElement (ElemID [''netsuite'', ''workbook'', ''instance'', ''w1''])
                  [(''pivots'', VArr [])]),
         (True, InstanceElement (ElemID [''netsuite'', ''workbook'', ''instance'', ''w2''])
                  [(''name'', VStr ''x'')]),
         (True, InstanceElement (ElemID [''netsuite'', ''dataset'', ''instance'', ''d1''])
                  [(''pivots'', VArr [])])]"]
  by (simp add: has_key_def typeName_def)

end
